theory Spec2Isabelle
  imports Main
begin

section \<open>Dates\<close>

text \<open>
  Every date the scheduling handlers see is a local midnight: the sample project is built from
  \<^verbatim>\<open>startOfDay\<close>, the task form parses \<^verbatim>\<open>yyyy-MM-ddT00:00:00\<close>, the views derive
  dates with \<^verbatim>\<open>addDays\<close> and the note parser calls \<^verbatim>\<open>setHours(0, 0, 0, 0)\<close>.  A date is
  therefore modelled by its day number, the whole days since 1 January 1970 (a Thursday).
  The functions below are the ones imported from the date-fns library, read at this
  granularity.
\<close>

type_synonym date = int

definition addDays :: "date \<Rightarrow> int \<Rightarrow> date" where
  "addDays d amount = d + amount"

definition differenceInDays :: "date \<Rightarrow> date \<Rightarrow> int" where
  "differenceInDays dateLeft dateRight = dateLeft - dateRight"

text \<open>\<^verbatim>\<open>getDay\<close>: 0 is Sunday, 6 is Saturday; day number 0 is a Thursday.\<close>

definition getDay :: "date \<Rightarrow> int" where
  "getDay d = (d + 4) mod 7"

definition isWeekend :: "date \<Rightarrow> bool" where
  "isWeekend d = (getDay d = 0 \<or> getDay d = 6)"

text \<open>
  The closing loop of \<^verbatim>\<open>differenceInBusinessDays\<close>:
  \<^verbatim>\<open>while (!isSameDay(dateLeft, dateRight)) {
    result += isWeekend(dateRight) ? 0 : sign; dateRight = addDays(dateRight, sign) }\<close>.
  It runs once for each day between the two dates, which is the first argument here.
\<close>

fun businessDaysLoop :: "nat \<Rightarrow> date \<Rightarrow> int \<Rightarrow> int \<Rightarrow> int" where
  "businessDaysLoop 0 dateRight sign result = result"
| "businessDaysLoop (Suc n) dateRight sign result =
     businessDaysLoop n (addDays dateRight sign) sign
       (result + (if isWeekend dateRight then 0 else sign))"

text \<open>\<^verbatim>\<open>Math.trunc(calendarDifference / 7)\<close>: division rounding towards zero.\<close>

definition truncDiv7 :: "int \<Rightarrow> int" where
  "truncDiv7 x = (if x < 0 then - ((- x) div 7) else x div 7)"

definition differenceInBusinessDays :: "date \<Rightarrow> date \<Rightarrow> int" where
  "differenceInBusinessDays dateLeft dateRight =
     (let calendarDifference = dateLeft - dateRight;
          sign = (if calendarDifference < 0 then - 1 else 1);
          weeks = truncDiv7 calendarDifference;
          dateRight' = addDays dateRight (weeks * 7)
      in businessDaysLoop (nat \<bar>dateLeft - dateRight'\<bar>) dateRight' sign (weeks * 5))"

section \<open>Data model (types.ts)\<close>

text \<open>
  \<^verbatim>\<open>Task\<close>, \<^verbatim>\<open>TaskGroup\<close>, \<^verbatim>\<open>Warning\<close> and \<^verbatim>\<open>Project\<close>.  An optional field is an
  \<open>option\<close>; \<open>unitId\<close> is the field the unit handlers of the application read and write.
\<close>

record Task =
  task_id :: int
  task_name :: string
  task_start :: date
  task_end :: date
  progress :: int
  predecessorId :: "int option"
  groupId :: "string option"
  unitId :: "string option"

record TaskGroup =
  group_id :: string
  group_name :: "string option"
  taskIds :: "int list"
  color :: string

text \<open>
  The text of a warning is one fixed sentence around the two task names; the model keeps the
  two names.
\<close>

datatype message = StartsBeforePredecessorEnds string string

record Warning =
  warning_taskId :: int
  warning_message :: message

record Project =
  project_id :: string
  project_name :: string
  startDate :: date
  endDate :: date
  tasks :: "Task list"
  taskGroups :: "TaskGroup list"

text \<open>
  \<^verbatim>\<open>Partial<Project>\<close> as the handlers build it: each key is present or absent.  A handler
  that returns \<^verbatim>\<open>null\<close> returns \<open>None\<close>.
\<close>

record ProjectUpdate =
  upd_tasks :: "Task list option"
  upd_taskGroups :: "TaskGroup list option"

text \<open>\<^verbatim>\<open>{ ...currentProject, ...partialUpdate }\<close>\<close>

definition mergeUpdate :: "Project \<Rightarrow> ProjectUpdate \<Rightarrow> Project" where
  "mergeUpdate p u =
     p\<lparr>tasks := (case upd_tasks u of None \<Rightarrow> tasks p | Some ts \<Rightarrow> ts),
       taskGroups := (case upd_taskGroups u of None \<Rightarrow> taskGroups p | Some gs \<Rightarrow> gs)\<rparr>"

subsection \<open>JavaScript idioms\<close>

text \<open>Truthiness of an optional number and of an optional string: 0 and the empty string are falsy.\<close>

definition truthyNum :: "int option \<Rightarrow> bool" where
  "truthyNum v = (case v of None \<Rightarrow> False | Some n \<Rightarrow> n \<noteq> 0)"

definition truthyStr :: "string option \<Rightarrow> bool" where
  "truthyStr v = (case v of None \<Rightarrow> False | Some s \<Rightarrow> s \<noteq> [])"

text \<open>\<^verbatim>\<open>tasks.find(t => t.id === id)\<close> and \<^verbatim>\<open>taskGroups.find(g => g.id === id)\<close>\<close>

definition findTask :: "Task list \<Rightarrow> int \<Rightarrow> Task option" where
  "findTask ts i = List.find (\<lambda>t. task_id t = i) ts"

definition findGroup :: "TaskGroup list \<Rightarrow> string \<Rightarrow> TaskGroup option" where
  "findGroup gs i = List.find (\<lambda>g. group_id g = i) gs"

section \<open>Warning detection (checkForWarnings)\<close>

text \<open>
  The body of the \<^verbatim>\<open>for\<close> loop for one task: the warnings pushed onto \<open>newWarnings\<close>.
  The guard \<^verbatim>\<open>if (task.predecessorId)\<close> is a truthiness test, so the number 0 counts as
  absent.  The loop reads \<open>updatedTasks\<close> only and ends in \<^verbatim>\<open>setWarnings(newWarnings)\<close>.
\<close>

definition warningStep :: "Task list \<Rightarrow> Task \<Rightarrow> Warning list \<Rightarrow> Warning list" where
  "warningStep updatedTasks task newWarnings =
     (case predecessorId task of
        None \<Rightarrow> newWarnings
      | Some pid \<Rightarrow>
          if pid = 0 then newWarnings
          else (case findTask updatedTasks pid of
                  None \<Rightarrow> newWarnings
                | Some predecessor \<Rightarrow>
                    if task_start task < task_end predecessor
                    then newWarnings @
                           [\<lparr>warning_taskId = task_id task,
                             warning_message = StartsBeforePredecessorEnds (task_name task)
                                         (task_name predecessor)\<rparr>]
                    else newWarnings))"

fun warningLoop :: "Task list \<Rightarrow> Task list \<Rightarrow> Warning list \<Rightarrow> Warning list" where
  "warningLoop updatedTasks [] newWarnings = newWarnings"
| "warningLoop updatedTasks (task # rest) newWarnings =
     warningLoop updatedTasks rest (warningStep updatedTasks task newWarnings)"

definition checkForWarnings :: "Task list \<Rightarrow> Warning list" where
  "checkForWarnings updatedTasks = warningLoop updatedTasks updatedTasks []"

section \<open>Task mutation handlers (App.tsx)\<close>

text \<open>
  Each handler passes an updater to \<^verbatim>\<open>updateAndSaveProjectData\<close>; the updater maps the
  current project to a partial update, or to \<^verbatim>\<open>null\<close>.  The definitions below are these
  updaters, with the handler's arguments as parameters.
\<close>

subsection \<open>handleDragTask\<close>

text \<open>\<^verbatim>\<open>{ ...task, start: addDays(task.start, deltaDays), end: addDays(task.end, deltaDays) }\<close>\<close>

definition shiftTask :: "int \<Rightarrow> Task \<Rightarrow> Task" where
  "shiftTask deltaDays task =
     task\<lparr>task_start := addDays (task_start task) deltaDays,
          task_end := addDays (task_end task) deltaDays\<rparr>"

text \<open>The branch for a task without a group.\<close>

definition dragUngrouped :: "Task list \<Rightarrow> int \<Rightarrow> date \<Rightarrow> Task list" where
  "dragUngrouped ts taskId newStartDate =
     map (\<lambda>task. if task_id task = taskId
                  then task\<lparr>task_start := newStartDate,
                            task_end := addDays newStartDate
                              (differenceInBusinessDays (task_end task) (task_start task))\<rparr>
                  else task) ts"

definition handleDragTask :: "Project \<Rightarrow> int \<Rightarrow> date \<Rightarrow> ProjectUpdate option" where
  "handleDragTask proj taskId newStartDate =
     (case findTask (tasks proj) taskId of
        None \<Rightarrow> None
      | Some taskToMove \<Rightarrow>
          let deltaDays = differenceInDays newStartDate (task_start taskToMove) in
          if deltaDays = 0 then None
          else if truthyStr (groupId taskToMove) then
            (case findGroup (taskGroups proj) (the (groupId taskToMove)) of
               None \<Rightarrow> None
             | Some grp \<Rightarrow>
                 Some \<lparr>upd_tasks = Some (map (\<lambda>task. if task_id task \<in> set (taskIds grp)
                                                      then shiftTask deltaDays task else task)
                                            (tasks proj)),
                       upd_taskGroups = None\<rparr>)
          else Some \<lparr>upd_tasks = Some (dragUngrouped (tasks proj) taskId newStartDate),
                     upd_taskGroups = None\<rparr>)"

text \<open>
  The earlier revision of the handler (the one that keeps the projects in local storage).
  It measures every duration with \<^verbatim>\<open>differenceInBusinessDays\<close>, also for the members of a
  group, and it goes on with the unchanged list when the group is missing.
\<close>

definition dragMember_local :: "int \<Rightarrow> Task \<Rightarrow> Task" where
  "dragMember_local deltaDays task =
     (let duration = differenceInBusinessDays (task_end task) (task_start task);
          newStart = addDays (task_start task) deltaDays;
          newEnd = addDays newStart duration
      in task\<lparr>task_start := newStart, task_end := newEnd\<rparr>)"

definition handleDragTask_local :: "Project \<Rightarrow> int \<Rightarrow> date \<Rightarrow> ProjectUpdate option" where
  "handleDragTask_local proj taskId newStartDate =
     (case findTask (tasks proj) taskId of
        None \<Rightarrow> None
      | Some taskToMove \<Rightarrow>
          let deltaDays = differenceInDays newStartDate (task_start taskToMove) in
          if deltaDays = 0 then None
          else if truthyStr (groupId taskToMove) then
            (case findGroup (taskGroups proj) (the (groupId taskToMove)) of
               None \<Rightarrow> Some \<lparr>upd_tasks = Some (tasks proj), upd_taskGroups = None\<rparr>
             | Some grp \<Rightarrow>
                 Some \<lparr>upd_tasks = Some (map (\<lambda>task. if task_id task \<in> set (taskIds grp)
                                                      then dragMember_local deltaDays task else task)
                                            (tasks proj)),
                       upd_taskGroups = None\<rparr>)
          else
            (let duration = differenceInBusinessDays (task_end taskToMove) (task_start taskToMove);
                 newEndDate = addDays newStartDate duration
             in Some \<lparr>upd_tasks = Some (map (\<lambda>task. if task_id task = taskId
                                                      then task\<lparr>task_start := newStartDate,
                                                                task_end := newEndDate\<rparr>
                                                      else task) (tasks proj)),
                       upd_taskGroups = None\<rparr>))"

subsection \<open>handleResizeTask\<close>

definition handleResizeTask :: "Project \<Rightarrow> int \<Rightarrow> date \<Rightarrow> date \<Rightarrow> ProjectUpdate option" where
  "handleResizeTask proj taskId newStart newEnd =
     Some \<lparr>upd_tasks = Some (map (\<lambda>t. if task_id t = taskId
                                       then t\<lparr>task_start := newStart, task_end := newEnd\<rparr>
                                       else t) (tasks proj)),
           upd_taskGroups = None\<rparr>"

subsection \<open>confirmDeleteTask\<close>

text \<open>\<^verbatim>\<open>t.groupId || ''\<close>\<close>

definition groupIdOrEmpty :: "Task \<Rightarrow> string" where
  "groupIdOrEmpty t = (case groupId t of None \<Rightarrow> [] | Some g \<Rightarrow> g)"

text \<open>The constants \<open>newGroups\<close> and \<open>finalTasks\<close> of the updater, and the updater.\<close>

definition removeMember :: "int \<Rightarrow> TaskGroup \<Rightarrow> TaskGroup" where
  "removeMember i g = g\<lparr>taskIds := filter (\<lambda>j. j \<noteq> i) (taskIds g)\<rparr>"

definition deleteNewGroups :: "Project \<Rightarrow> int \<Rightarrow> TaskGroup list" where
  "deleteNewGroups proj taskToDeleteId =
     filter (\<lambda>g. length (taskIds g) > 1) (map (removeMember taskToDeleteId) (taskGroups proj))"

definition deleteFinalTasks :: "Project \<Rightarrow> int \<Rightarrow> Task list" where
  "deleteFinalTasks proj taskToDeleteId =
     (let remainingTasks = filter (\<lambda>t. task_id t \<noteq> taskToDeleteId) (tasks proj);
          newTasks = map (\<lambda>t. if predecessorId t = Some taskToDeleteId
                              then t\<lparr>predecessorId := None\<rparr> else t) remainingTasks;
          newGroups = deleteNewGroups proj taskToDeleteId;
          dissolvedGroupIds =
            set (map group_id
                  (filter (\<lambda>g. \<not> list_ex (\<lambda>ng. group_id ng = group_id g) newGroups)
                          (taskGroups proj)))
      in map (\<lambda>t. if groupIdOrEmpty t \<in> dissolvedGroupIds
                  then t\<lparr>groupId := None\<rparr> else t) newTasks)"

definition confirmDeleteTask :: "Project \<Rightarrow> int \<Rightarrow> ProjectUpdate option" where
  "confirmDeleteTask proj taskToDeleteId =
     (case findTask (tasks proj) taskToDeleteId of
        None \<Rightarrow> None
      | Some taskToDelete \<Rightarrow>
          Some \<lparr>upd_tasks = Some (deleteFinalTasks proj taskToDeleteId),
                upd_taskGroups = Some (deleteNewGroups proj taskToDeleteId)\<rparr>)"

subsection \<open>handleUngroupTask\<close>

text \<open>
  \<open>updatedGroups\<close>, \<open>shouldDissolve\<close>, \<open>finalGroups\<close> and \<open>finalTasks\<close> for the group id
  of the task, and the updater.
\<close>

definition ungroupUpdatedGroups :: "Project \<Rightarrow> string \<Rightarrow> int \<Rightarrow> TaskGroup list" where
  "ungroupUpdatedGroups proj gId taskIdToUngroup =
     map (\<lambda>g. if group_id g = gId then removeMember taskIdToUngroup g else g) (taskGroups proj)"

definition shouldDissolve :: "Project \<Rightarrow> string \<Rightarrow> int \<Rightarrow> bool" where
  "shouldDissolve proj gId taskIdToUngroup =
     (case findGroup (ungroupUpdatedGroups proj gId taskIdToUngroup) gId of
        None \<Rightarrow> False
      | Some g \<Rightarrow> length (taskIds g) < 2)"

definition ungroupFinalGroups :: "Project \<Rightarrow> string \<Rightarrow> int \<Rightarrow> TaskGroup list" where
  "ungroupFinalGroups proj gId taskIdToUngroup =
     (if shouldDissolve proj gId taskIdToUngroup
      then filter (\<lambda>g. group_id g \<noteq> gId) (ungroupUpdatedGroups proj gId taskIdToUngroup)
      else ungroupUpdatedGroups proj gId taskIdToUngroup)"

definition ungroupFinalTasks :: "Project \<Rightarrow> string \<Rightarrow> int \<Rightarrow> Task list" where
  "ungroupFinalTasks proj gId taskIdToUngroup =
     map (\<lambda>t. if task_id t = taskIdToUngroup \<or>
                 (shouldDissolve proj gId taskIdToUngroup \<and> groupId t = Some gId)
              then t\<lparr>groupId := None\<rparr> else t) (tasks proj)"

definition handleUngroupTask :: "Project \<Rightarrow> int \<Rightarrow> ProjectUpdate option" where
  "handleUngroupTask proj taskIdToUngroup =
     (case findTask (tasks proj) taskIdToUngroup of
        None \<Rightarrow> None
      | Some task \<Rightarrow>
          if \<not> truthyStr (groupId task) then None
          else
            let gId = the (groupId task) in
            Some \<lparr>upd_tasks = Some (ungroupFinalTasks proj gId taskIdToUngroup),
                  upd_taskGroups = Some (ungroupFinalGroups proj gId taskIdToUngroup)\<rparr>)"

subsection \<open>handleCreateGroup\<close>

text \<open>
  The handler reads the selection and the clock.  It returns without a word when fewer than
  two tasks are selected, shows a notification and returns when a selected task is grouped
  already, and otherwise hands an updater to \<^verbatim>\<open>updateAndSaveProjectData\<close>.
\<close>

datatype createGroupOutcome =
    NotEnoughSelected
  | DuplicateGrouping
  | GroupCreated ProjectUpdate

text \<open>The decimal digits of a number, as a template literal prints \<^verbatim>\<open>Date.now()\<close>.\<close>

fun decimal :: "nat \<Rightarrow> string" where
  "decimal n =
     (if n < 10 then [''0123456789'' ! n]
      else decimal (n div 10) @ [''0123456789'' ! (n mod 10)])"

declare decimal.simps [simp del]

definition newGroupIdAt :: "nat \<Rightarrow> string" where
  "newGroupIdAt now = ''group-'' @ decimal now"

definition colors :: "string list" where
  "colors = [''#f87171'', ''#fb923c'', ''#fbbf24'', ''#a3e635'', ''#4ade80'',
             ''#34d399'', ''#22d3ee'', ''#60a5fa'', ''#818cf8'', ''#c084fc'']"

definition isDuplicate :: "Task list \<Rightarrow> int list \<Rightarrow> bool" where
  "isDuplicate ts selectedTaskIds =
     list_ex (\<lambda>i. case findTask ts i of None \<Rightarrow> False | Some t \<Rightarrow> truthyStr (groupId t))
             selectedTaskIds"

definition handleCreateGroup :: "nat \<Rightarrow> Project \<Rightarrow> int list \<Rightarrow> createGroupOutcome" where
  "handleCreateGroup now currentProject selectedTaskIds =
     (if length selectedTaskIds < 2 then NotEnoughSelected
      else if isDuplicate (tasks currentProject) selectedTaskIds then DuplicateGrouping
      else
        let newGroupId = newGroupIdAt now;
            randomColor = colors ! (length (taskGroups currentProject) mod length colors);
            newGroup = \<lparr>group_id = newGroupId, group_name = None,
                        taskIds = selectedTaskIds, color = randomColor\<rparr>
        in GroupCreated
             \<lparr>upd_tasks = Some (map (\<lambda>task. if task_id task \<in> set selectedTaskIds
                                            then task\<lparr>groupId := Some newGroupId\<rparr> else task)
                                  (tasks currentProject)),
              upd_taskGroups = Some (taskGroups currentProject @ [newGroup])\<rparr>)"

text \<open>
  The project the handler leaves behind: a rejected call changes nothing, a successful one
  stores the merged project.
\<close>

definition projectAfterCreateGroup :: "nat \<Rightarrow> Project \<Rightarrow> int list \<Rightarrow> Project" where
  "projectAfterCreateGroup now currentProject selectedTaskIds =
     (case handleCreateGroup now currentProject selectedTaskIds of
        GroupCreated u \<Rightarrow> mergeUpdate currentProject u
      | _ \<Rightarrow> currentProject)"

subsection \<open>handleSaveTask\<close>

text \<open>
  The argument of the handler, \<^verbatim>\<open>{ id?: number; name; start; end }\<close>.  An optional key of
  a JavaScript object is absent (\<open>None\<close>), or present with the value \<^verbatim>\<open>undefined\<close>
  (\<open>Some None\<close>), or present with a number; the task form builds its argument as
  \<^verbatim>\<open>{ id: taskToEdit?.id, name, start, end }\<close>, so the key is always present there.
\<close>

record TaskData =
  td_id :: "int option option"
  td_name :: string
  td_start :: date
  td_end :: date

text \<open>The value read by \<^verbatim>\<open>taskData.id\<close>.\<close>

definition taskDataId :: "TaskData \<Rightarrow> int option" where
  "taskDataId taskData = (case td_id taskData of None \<Rightarrow> None | Some v \<Rightarrow> v)"

text \<open>
  The object literal \<^verbatim>\<open>{ id: newId, progress: 0, ...taskData }\<close>.  The spread comes last
  and copies every own key of \<open>taskData\<close>, so a present \<open>id\<close> key replaces \<open>newId\<close>, also
  when its value is \<^verbatim>\<open>undefined\<close>.  The object has no other key.
\<close>

record NewTask =
  new_id :: "int option"
  new_name :: string
  new_start :: date
  new_end :: date
  new_progress :: int

definition newTaskObject :: "int \<Rightarrow> TaskData \<Rightarrow> NewTask" where
  "newTaskObject newId taskData =
     \<lparr>new_id = (case td_id taskData of None \<Rightarrow> Some newId | Some v \<Rightarrow> v),
      new_name = td_name taskData, new_start = td_start taskData, new_end = td_end taskData,
      new_progress = 0\<rparr>"

text \<open>\<^verbatim>\<open>proj.tasks.length > 0 ? Math.max(...proj.tasks.map(t => t.id)) + 1 : 1\<close>\<close>

definition allocateId :: "Task list \<Rightarrow> int" where
  "allocateId ts = (if length ts > 0 then Max (set (map task_id ts)) + 1 else 1)"

text \<open>
  The new task list: the update branch maps over the tasks; the create branch is the old
  list followed by the new object.
\<close>

datatype saveOutcome =
    TasksMapped "Task list"
  | TaskAppended "Task list" NewTask

definition handleSaveTask :: "Project \<Rightarrow> TaskData \<Rightarrow> saveOutcome" where
  "handleSaveTask proj taskData =
     (if truthyNum (taskDataId taskData) then
        TasksMapped (map (\<lambda>t. if Some (task_id t) = taskDataId taskData
                               then t\<lparr>task_name := td_name taskData,
                                      task_start := td_start taskData,
                                      task_end := td_end taskData\<rparr>
                               else t) (tasks proj))
      else TaskAppended (tasks proj) (newTaskObject (allocateId (tasks proj)) taskData))"

text \<open>
  The earlier revision of the handler writes the new task field by field:
  \<^verbatim>\<open>{ id: newId, name: taskData.name, start: taskData.start, end: taskData.end, progress: 0 }\<close>.
\<close>

definition handleSaveTask_local :: "Project \<Rightarrow> TaskData \<Rightarrow> saveOutcome" where
  "handleSaveTask_local proj taskData =
     (if truthyNum (taskDataId taskData) then
        TasksMapped (map (\<lambda>t. if Some (task_id t) = taskDataId taskData
                               then t\<lparr>task_name := td_name taskData,
                                      task_start := td_start taskData,
                                      task_end := td_end taskData\<rparr>
                               else t) (tasks proj))
      else TaskAppended (tasks proj)
             \<lparr>new_id = Some (allocateId (tasks proj)), new_name = td_name taskData,
              new_start = td_start taskData, new_end = td_end taskData, new_progress = 0\<rparr>)"

subsection \<open>handleUpdateTaskInterval\<close>

text \<open>\<^verbatim>\<open>findIndex\<close> gives -1 when nothing matches.\<close>

fun findIndex :: "('a \<Rightarrow> bool) \<Rightarrow> 'a list \<Rightarrow> int" where
  "findIndex P [] = - 1"
| "findIndex P (x # xs) =
     (if P x then 0 else (let i = findIndex P xs in if i < 0 then - 1 else i + 1))"

text \<open>\<^verbatim>\<open>xs.slice(start)\<close>: a negative start counts from the end of the array.\<close>

definition sliceFrom :: "int \<Rightarrow> 'a list \<Rightarrow> 'a list" where
  "sliceFrom start xs =
     (if start < 0 then drop (nat (max (int (length xs) + start) 0)) xs
      else drop (nat start) xs)"

text \<open>
  \<^verbatim>\<open>group.taskIds.map(id => proj.tasks.find(t => t.id === id)!).filter(Boolean)\<close>: the
  members that exist, in the order of \<open>taskIds\<close>.
\<close>

definition existingMembers :: "Task list \<Rightarrow> int list \<Rightarrow> Task list" where
  "existingMembers ts ids =
     concat (map (\<lambda>i. case findTask ts i of None \<Rightarrow> [] | Some t \<Rightarrow> [t]) ids)"

text \<open>
  The constant \<open>groupTasks\<close>: the existing members after
  \<^verbatim>\<open>.sort((a, b) => a.start.getTime() - b.start.getTime())\<close>.  The sort of an array is
  stable, as \<open>sort_key\<close> is.
\<close>

definition groupTasksByStart :: "Project \<Rightarrow> TaskGroup \<Rightarrow> Task list" where
  "groupTasksByStart proj grp = sort_key task_start (existingMembers (tasks proj) (taskIds grp))"

definition handleUpdateTaskInterval ::
  "Project \<Rightarrow> string \<Rightarrow> int \<Rightarrow> int \<Rightarrow> int \<Rightarrow> ProjectUpdate option" where
  "handleUpdateTaskInterval proj gId previousTaskId taskToShiftId newInterval =
     (case findTask (tasks proj) previousTaskId of
        None \<Rightarrow> None
      | Some prevTask \<Rightarrow>
         (case findTask (tasks proj) taskToShiftId of
            None \<Rightarrow> None
          | Some taskToShift \<Rightarrow>
              let newStartDate = addDays (task_end prevTask) newInterval;
                  delta = differenceInDays newStartDate (task_start taskToShift) in
              if delta = 0 then None
              else
                (case findGroup (taskGroups proj) gId of
                   None \<Rightarrow> None
                 | Some grp \<Rightarrow>
                     let groupTasks = groupTasksByStart proj grp;
                         startIndex = findIndex (\<lambda>t. task_id t = taskToShiftId) groupTasks;
                         idsToShift = set (map task_id (sliceFrom startIndex groupTasks));
                         newTasks = map (\<lambda>t. if task_id t \<in> idsToShift then shiftTask delta t else t)
                                        (tasks proj)
                     in Some \<lparr>upd_tasks = Some newTasks, upd_taskGroups = None\<rparr>)))"

subsection \<open>updateAndSaveProjectData and handleUpdateGroup\<close>

text \<open>
  An updater either returns a partial update or \<^verbatim>\<open>null\<close>, or it throws; the \<^verbatim>\<open>try\<close> block
  of \<^verbatim>\<open>updateAndSaveProjectData\<close> turns an exception into a notification and the result
  \<^verbatim>\<open>null\<close>.
\<close>

datatype js_error = TypeError

type_synonym updater = "Project \<Rightarrow> js_error + ProjectUpdate option"

text \<open>
  \<^verbatim>\<open>updateAndSaveProjectData\<close> is a callback of the render that created it: it applies the
  updater to the \<open>currentProject\<close> of that render, and saves and stores
  \<^verbatim>\<open>{ ...currentProject, ...partialUpdate }\<close> in place of the project.  The last argument is
  the project as stored before the call; the result is the project as stored after it, with
  the value the call returns.
\<close>

definition updateAndSaveProjectData ::
  "Project \<Rightarrow> updater \<Rightarrow> Project \<Rightarrow> Project \<times> ProjectUpdate option" where
  "updateAndSaveProjectData currentProject upd stored =
     (case upd currentProject of
        Inl e \<Rightarrow> (stored, None)
      | Inr None \<Rightarrow> (stored, None)
      | Inr (Some partialUpdate) \<Rightarrow> (mergeUpdate currentProject partialUpdate, Some partialUpdate))"

text \<open>
  \<^verbatim>\<open>Partial<Pick<TaskGroup, 'name' | 'taskIds'>>\<close>, and the updater of
  \<^verbatim>\<open>handleUpdateGroup\<close>: \<^verbatim>\<open>g.id === groupId ? { ...g, ...updates } : g\<close>.
\<close>

record GroupUpdates =
  gu_name :: "string option"
  gu_taskIds :: "int list option"

definition applyGroupUpdates :: "GroupUpdates \<Rightarrow> TaskGroup \<Rightarrow> TaskGroup" where
  "applyGroupUpdates updates g =
     g\<lparr>group_name := (case gu_name updates of None \<Rightarrow> group_name g | Some n \<Rightarrow> Some n),
       taskIds := (case gu_taskIds updates of None \<Rightarrow> taskIds g | Some ids \<Rightarrow> ids)\<rparr>"

definition updateGroupUpdater :: "string \<Rightarrow> GroupUpdates \<Rightarrow> Project \<Rightarrow> ProjectUpdate" where
  "updateGroupUpdater gId updates proj =
     \<lparr>upd_tasks = None,
      upd_taskGroups = Some (map (\<lambda>g. if group_id g = gId then applyGroupUpdates updates g else g)
                                 (taskGroups proj))\<rparr>"

definition handleUpdateGroup :: "Project \<Rightarrow> string \<Rightarrow> GroupUpdates \<Rightarrow> Project \<Rightarrow> Project" where
  "handleUpdateGroup currentProject gId updates stored =
     fst (updateAndSaveProjectData currentProject
            (\<lambda>proj. Inr (Some (updateGroupUpdater gId updates proj))) stored)"

subsection \<open>handleReorderGroupTasks\<close>

text \<open>
  \<^verbatim>\<open>newOrderedTaskIds.map(id => proj.tasks.find(t => t.id === id)!)\<close>: an id that no task
  carries leaves \<^verbatim>\<open>undefined\<close> in the array, and the loop throws a \<^verbatim>\<open>TypeError\<close> when it
  reads \<^verbatim>\<open>task.end\<close> there.
\<close>

fun lookupTasks :: "Task list \<Rightarrow> int list \<Rightarrow> js_error + Task list" where
  "lookupTasks ts [] = Inr []"
| "lookupTasks ts (i # ids) =
     (case findTask ts i of
        None \<Rightarrow> Inl TypeError
      | Some t \<Rightarrow> (case lookupTasks ts ids of Inl e \<Rightarrow> Inl e | Inr rest \<Rightarrow> Inr (t # rest)))"

text \<open>
  \<open>taskUpdates\<close> is a \<^verbatim>\<open>Map\<close> from task ids to new dates; it is kept as an association
  list whose newest binding comes first, so that \<open>map_of\<close> reads what \<^verbatim>\<open>get\<close> reads.
  The loop is the \<^verbatim>\<open>forEach\<close> from the second task on.
\<close>

type_synonym taskUpdates = "(int \<times> date \<times> date) list"

fun relayoutLoop :: "Task list \<Rightarrow> date \<Rightarrow> taskUpdates \<Rightarrow> taskUpdates" where
  "relayoutLoop [] lastEndDate updates = updates"
| "relayoutLoop (task # rest) lastEndDate updates =
     (let newStart = addDays lastEndDate 1;
          newEnd = addDays newStart (differenceInDays (task_end task) (task_start task))
      in relayoutLoop rest newEnd ((task_id task, newStart, newEnd) # updates))"

definition relayout :: "Task list \<Rightarrow> taskUpdates" where
  "relayout groupTasks =
     (case groupTasks of [] \<Rightarrow> [] | first # rest \<Rightarrow> relayoutLoop rest (task_end first) [])"

text \<open>\<^verbatim>\<open>taskUpdates.has(t.id) ? { ...t, ...taskUpdates.get(t.id)! } : t\<close>\<close>

definition applyTaskUpdates :: "taskUpdates \<Rightarrow> Task \<Rightarrow> Task" where
  "applyTaskUpdates updates t =
     (case map_of updates (task_id t) of
        None \<Rightarrow> t
      | Some (s, e) \<Rightarrow> t\<lparr>task_start := s, task_end := e\<rparr>)"

definition reorderUpdater :: "int list \<Rightarrow> updater" where
  "reorderUpdater newOrderedTaskIds proj =
     (case lookupTasks (tasks proj) newOrderedTaskIds of
        Inl e \<Rightarrow> Inl e
      | Inr groupTasks \<Rightarrow>
          let updates = relayout groupTasks in
          if length updates > 0
          then Inr (Some \<lparr>upd_tasks = Some (map (applyTaskUpdates updates) (tasks proj)),
                          upd_taskGroups = None\<rparr>)
          else Inr (Some \<lparr>upd_tasks = None, upd_taskGroups = None\<rparr>))"

text \<open>
  The handler awaits \<^verbatim>\<open>handleUpdateGroup\<close> and then calls \<^verbatim>\<open>updateAndSaveProjectData\<close>
  with the relayout.  Both are callbacks of the render the handler itself belongs to, so both
  work on the same \<open>currentProject\<close>, which is also what is stored when the handler starts.
  The result is the project as stored when the handler has finished.
\<close>

definition handleReorderGroupTasks :: "Project \<Rightarrow> string \<Rightarrow> int list \<Rightarrow> Project" where
  "handleReorderGroupTasks currentProject gId newOrderedTaskIds =
     (let stored1 = handleUpdateGroup currentProject gId
                      \<lparr>gu_name = None, gu_taskIds = Some newOrderedTaskIds\<rparr> currentProject
      in fst (updateAndSaveProjectData currentProject (reorderUpdater newOrderedTaskIds) stored1))"

text \<open>
  The earlier revision keeps the projects in component state only and updates them with
  \<^verbatim>\<open>setProjects(prev => prev.map(p => p.id === currentProjectId ? { ...p, ...updater(p) } : p))\<close>:
  each updater is applied to the project as stored at that moment.  Its relayout also
  records the first task with its own dates, and takes each duration from a \<^verbatim>\<open>Map\<close> built
  beforehand.
\<close>

definition updateCurrentProject :: "(Project \<Rightarrow> ProjectUpdate) \<Rightarrow> Project \<Rightarrow> Project" where
  "updateCurrentProject upd stored = mergeUpdate stored (upd stored)"

fun relayoutLoop_local ::
  "(int \<rightharpoonup> int) \<Rightarrow> Task list \<Rightarrow> date \<Rightarrow> taskUpdates \<Rightarrow> js_error + taskUpdates" where
  "relayoutLoop_local durationMap [] lastEndDate updates = Inr updates"
| "relayoutLoop_local durationMap (task # rest) lastEndDate updates =
     (case durationMap (task_id task) of
        None \<Rightarrow> Inl TypeError
      | Some duration \<Rightarrow>
          let newStart = addDays lastEndDate 1;
              newEnd = addDays newStart duration
          in relayoutLoop_local durationMap rest newEnd ((task_id task, newStart, newEnd) # updates))"

definition relayout_local :: "Task list \<Rightarrow> js_error + taskUpdates" where
  "relayout_local groupTasks =
     (let durationMap =
            map_of (rev (map (\<lambda>t. (task_id t, differenceInDays (task_end t) (task_start t)))
                             groupTasks))
      in case groupTasks of
           [] \<Rightarrow> Inr []
         | first # rest \<Rightarrow>
             relayoutLoop_local durationMap rest (task_end first)
               [(task_id first, task_start first, task_end first)])"

definition reorderUpdater_local :: "int list \<Rightarrow> Project \<Rightarrow> js_error + ProjectUpdate" where
  "reorderUpdater_local newOrderedTaskIds proj =
     (case lookupTasks (tasks proj) newOrderedTaskIds of
        Inl e \<Rightarrow> Inl e
      | Inr groupTasks \<Rightarrow>
          (case relayout_local groupTasks of
             Inl e \<Rightarrow> Inl e
           | Inr updates \<Rightarrow>
               if length updates > 0
               then Inr \<lparr>upd_tasks = Some (map (applyTaskUpdates updates) (tasks proj)),
                         upd_taskGroups = None\<rparr>
               else Inr \<lparr>upd_tasks = None, upd_taskGroups = None\<rparr>))"

definition handleReorderGroupTasks_local :: "Project \<Rightarrow> string \<Rightarrow> int list \<Rightarrow> js_error + Project" where
  "handleReorderGroupTasks_local stored gId newOrderedTaskIds =
     (let stored1 = updateCurrentProject
                      (updateGroupUpdater gId \<lparr>gu_name = None, gu_taskIds = Some newOrderedTaskIds\<rparr>)
                      stored
      in case reorderUpdater_local newOrderedTaskIds stored1 of
           Inl e \<Rightarrow> Inl e
         | Inr u \<Rightarrow> Inr (mergeUpdate stored1 u))"

section \<open>Markdown note import (services/mdParser.ts)\<close>

text \<open>
  A JavaScript string is the list of its UTF-16 code units, which are numbers below 65536;
  the parser reads nothing of a unit but its number.  \<open>units\<close> gives the code units of a
  text of ASCII characters.  A file is its name and its text; \<^verbatim>\<open>file.text()\<close> rejects when
  the text cannot be read, and the file has no text then.
\<close>

type_synonym jsString = "nat list"

definition units :: "string \<Rightarrow> jsString" where
  "units s = map of_char s"
















text \<open>\<^verbatim>\<open>parseInt(digits, 10)\<close> on a string of decimal digits.\<close>

definition parseInt :: "jsString \<Rightarrow> nat" where
  "parseInt ds = foldl (\<lambda>n c. 10 * n + (c - 48)) 0 ds"






subsection \<open>The earlier revision of the parser\<close>



section \<open>Notions of the specification and sample data\<close>

text \<open>A task value for examples: an id, a start, an end, a predecessor and a group.\<close>

definition mkTask :: "int \<Rightarrow> date \<Rightarrow> date \<Rightarrow> int option \<Rightarrow> string option \<Rightarrow> Task" where
  "mkTask i s e p g =
     \<lparr>task_id = i, task_name = ''T'', task_start = s, task_end = e, progress = 0,
      predecessorId = p, groupId = g, unitId = None\<rparr>"

definition mkGroup :: "string \<Rightarrow> int list \<Rightarrow> TaskGroup" where
  "mkGroup g ids = \<lparr>group_id = g, group_name = None, taskIds = ids, color = ''#f87171''\<rparr>"

definition mkProject :: "Task list \<Rightarrow> TaskGroup list \<Rightarrow> Project" where
  "mkProject ts gs =
     \<lparr>project_id = ''proj-1'', project_name = ''P'', startDate = 0, endDate = 60,
      tasks = ts, taskGroups = gs\<rparr>"

text \<open>
  The specification's words for warning detection: the predecessor a task's
  \<open>predecessorId\<close> resolves to in the list, and the warnings of the detector that carry the
  task's id.
\<close>

definition resolvedPredecessor :: "Task list \<Rightarrow> Task \<Rightarrow> Task option" where
  "resolvedPredecessor ts t =
     (case predecessorId t of None \<Rightarrow> None | Some pid \<Rightarrow> findTask ts pid)"

definition warningsOf :: "Task list \<Rightarrow> Task \<Rightarrow> Warning list" where
  "warningsOf ts t = filter (\<lambda>w. warning_taskId w = task_id t) (checkForWarnings ts)"

text \<open>
  The specification's words for a business-day duration.  Day 0 is a Thursday, so the
  Saturdays and Sundays are the days 2 and 3 of every seven.  The business days between a
  start and an end are the days from the start up to the day before the end that are
  neither; when the end is before the start, the days after the end up to the start are
  counted, with a minus sign.
\<close>

definition saturdayOrSunday :: "date \<Rightarrow> bool" where
  "saturdayOrSunday d = (d mod 7 = 2 \<or> d mod 7 = 3)"

definition businessDaysIn :: "date list \<Rightarrow> nat" where
  "businessDaysIn ds = length (filter (\<lambda>d. \<not> saturdayOrSunday d) ds)"

definition businessDaysBetween :: "date \<Rightarrow> date \<Rightarrow> int" where
  "businessDaysBetween s e =
     (if s \<le> e then int (businessDaysIn [s..e - 1]) else - int (businessDaysIn [e + 1..s]))"

text \<open>
  The specification's words for the relayout after a reorder: each task of the list starts
  one day after the end before it and keeps its own duration.
\<close>

fun chainAfter :: "date \<Rightarrow> Task list \<Rightarrow> Task list" where
  "chainAfter lastEnd [] = []"
| "chainAfter lastEnd (t # ts) =
     t\<lparr>task_start := lastEnd + 1, task_end := lastEnd + 1 + (task_end t - task_start t)\<rparr>
       # chainAfter (lastEnd + 1 + (task_end t - task_start t)) ts"

text \<open>Two tasks that differ in their dates at most.\<close>

definition sameButDates :: "Task \<Rightarrow> Task \<Rightarrow> bool" where
  "sameButDates t t' =
     (task_id t' = task_id t \<and> task_name t' = task_name t \<and> progress t' = progress t \<and>
      predecessorId t' = predecessorId t \<and> groupId t' = groupId t \<and> unitId t' = unitId t)"






section \<open>Lemmas on lookups and lists\<close>

lemma findTask_Some: "findTask ts i = Some t \<Longrightarrow> t \<in> set ts \<and> task_id t = i"
  unfolding findTask_def by (induction ts) (auto split: if_splits)

lemma findTask_distinct:
  "distinct (map task_id ts) \<Longrightarrow> x \<in> set ts \<Longrightarrow> findTask ts (task_id x) = Some x"
  unfolding findTask_def by (induction ts) (auto simp: image_iff)

lemma findTask_unique:
  assumes "distinct (map task_id ts)" "findTask ts i = Some t" "x \<in> set ts"
  shows "(task_id x = i) = (x = t)"
  using assms findTask_distinct findTask_Some by (metis option.inject)

lemma findGroup_None: "(findGroup gs i = None) = (\<forall>g \<in> set gs. group_id g \<noteq> i)"
  unfolding findGroup_def by (auto simp: find_None_iff)

lemma findGroup_unique:
  "g \<in> set gs \<Longrightarrow> \<forall>g' \<in> set gs. group_id g' = group_id g \<longrightarrow> g' = g \<Longrightarrow>
   findGroup gs (group_id g) = Some g"
  unfolding findGroup_def by (induction gs) auto

lemma in_set_mapI: "x \<in> set xs \<Longrightarrow> f x \<in> set (map f xs)"
  by simp

lemma filter_neq_absent: "x \<notin> set xs \<Longrightarrow> filter (\<lambda>i. i \<noteq> x) xs = xs"
  by (induction xs) auto

lemma length_filter_neq:
  "distinct xs \<Longrightarrow> x \<in> set xs \<Longrightarrow> length (filter (\<lambda>i. i \<noteq> x) xs) = length xs - 1"
proof -
  assume dx: "distinct xs" and mx: "x \<in> set xs"
  have "filter (\<lambda>i. i \<noteq> x) xs = remove1 x xs"
    using dx by (induction xs) (auto simp: filter_neq_absent)
  then show ?thesis using mx by (simp add: length_remove1)
qed




section \<open>Lemmas on decimal digits\<close>

lemma parseInt_snoc: "parseInt (ds @ [c]) = 10 * parseInt ds + (c - 48)"
  by (simp add: parseInt_def)

lemma digit_value: "k < 10 \<Longrightarrow> of_char (''0123456789'' ! k) - 48 = (k::nat)"
proof -
  assume "k < 10"
  then have "k \<in> {0, 1, 2, 3, 4, 5, 6, 7, 8, 9}" by auto
  then show ?thesis by (auto simp: eval_nat_numeral)
qed

text \<open>\<^verbatim>\<open>parseInt\<close> reads back the number that a template literal has printed.\<close>

lemma parseInt_decimal: "parseInt (units (decimal n)) = n"
proof (induction n rule: decimal.induct)
  case (1 n)
  show ?case
  proof (cases "n < 10")
    case True
    then show ?thesis by (subst decimal.simps) (simp add: parseInt_def units_def digit_value)
  next
    case False
    have "parseInt (units (decimal n)) =
            10 * parseInt (units (decimal (n div 10))) +
            (of_char (''0123456789'' ! (n mod 10)) - 48)"
      using False by (subst decimal.simps) (simp add: parseInt_snoc units_def)
    also have "of_char (''0123456789'' ! (n mod 10)) - 48 = n mod 10"
      by (rule digit_value) simp
    finally show ?thesis using "1.IH" [OF False] by simp
  qed
qed

section \<open>Warning detection: proofs\<close>

lemma warningStep_append: "warningStep ts t acc = acc @ warningStep ts t []"
  by (simp add: warningStep_def split: option.splits)

lemma warningLoop_concat:
  "warningLoop ts xs acc = acc @ concat (map (\<lambda>t. warningStep ts t []) xs)"
proof (induction xs arbitrary: acc)
  case Nil
  then show ?case by simp
next
  case (Cons x xs)
  show ?case
    by (simp add: Cons.IH) (subst warningStep_append, simp)
qed

lemma warningStep_taskId: "w \<in> set (warningStep ts t []) \<Longrightarrow> warning_taskId w = task_id t"
  by (auto simp: warningStep_def split: option.splits if_splits)

lemma filter_other_task:
  "task_id x \<noteq> i \<Longrightarrow> filter (\<lambda>w. warning_taskId w = i) (warningStep ts x []) = []"
  by (auto simp: filter_empty_conv dest: warningStep_taskId)

lemma filter_same_task:
  "filter (\<lambda>w. warning_taskId w = task_id t) (warningStep ts t []) = warningStep ts t []"
  by (auto simp: filter_id_conv dest: warningStep_taskId)

lemma filter_concat_steps:
  "distinct (map task_id xs) \<Longrightarrow> t \<in> set xs \<Longrightarrow>
   filter (\<lambda>w. warning_taskId w = task_id t) (concat (map (\<lambda>x. warningStep ts x []) xs))
     = warningStep ts t []"
proof (induction xs)
  case Nil
  then show ?case by simp
next
  case (Cons x xs)
  show ?case
  proof (cases "x = t")
    case True
    have "\<forall>y \<in> set xs. task_id y \<noteq> task_id t"
      using Cons.prems(1) True by (auto simp: image_iff)
    then have "filter (\<lambda>w. warning_taskId w = task_id t) (concat (map (\<lambda>x. warningStep ts x []) xs)) = []"
      by (induction xs) (auto simp: filter_other_task)
    then show ?thesis using True by (simp add: filter_same_task)
  next
    case False
    then have tin: "t \<in> set xs" using Cons.prems(2) by simp
    then have "task_id x \<noteq> task_id t" using Cons.prems(1) by force
    then show ?thesis using Cons.IH tin Cons.prems(1) by (simp add: filter_other_task)
  qed
qed

text \<open>
  With unique ids, the warnings that carry the id of a task of the list are the ones the
  loop pushes for that task.
\<close>

lemma warningsOf_task:
  assumes "distinct (map task_id ts)" and "t \<in> set ts"
  shows "warningsOf ts t = warningStep ts t []"
  using assms
  by (simp add: warningsOf_def checkForWarnings_def warningLoop_concat filter_concat_steps)

lemma findTask_absent: "\<forall>t \<in> set ts. task_id t \<noteq> i \<Longrightarrow> findTask ts i = None"
  unfolding findTask_def by (induction ts) auto

text \<open>
  Claim C1 (warning detection).  The ids of tasks are allocated from 1, so no task of a
  list has the id 0.  For every such task list, the warnings of the detector are, task by
  task in the order of the list: no warning for a task whose \<open>predecessorId\<close> is absent or
  names no task of the list; and otherwise, with \<open>p\<close> the task it resolves to, exactly one
  warning with the task's id and the names of the two tasks when \<open>task_start t < task_end p\<close>,
  and none when not.  With unique ids, these are the warnings that carry the id of the
  task.  The detector is a function of the task list that returns the warnings: it has no
  task list to change.
\<close>

theorem C1_warning_detection:
  assumes "\<forall>t \<in> set ts. task_id t \<noteq> 0"
  shows "checkForWarnings ts =
           concat (map (\<lambda>t. case resolvedPredecessor ts t of
                               None \<Rightarrow> []
                             | Some p \<Rightarrow>
                                 if task_start t < task_end p
                                 then [\<lparr>warning_taskId = task_id t,
                                        warning_message =
                                          StartsBeforePredecessorEnds (task_name t) (task_name p)\<rparr>]
                                 else []) ts) \<and>
         (distinct (map task_id ts) \<longrightarrow>
            (\<forall>t \<in> set ts.
               warningsOf ts t =
                 (case resolvedPredecessor ts t of
                    None \<Rightarrow> []
                  | Some p \<Rightarrow>
                      if task_start t < task_end p
                      then [\<lparr>warning_taskId = task_id t,
                             warning_message =
                               StartsBeforePredecessorEnds (task_name t) (task_name p)\<rparr>]
                      else [])))"
proof -
  have z: "findTask ts 0 = None"
    using assms by (rule findTask_absent)
  have step: "\<And>t. warningStep ts t [] =
          (case resolvedPredecessor ts t of
             None \<Rightarrow> []
           | Some p \<Rightarrow>
               if task_start t < task_end p
               then [\<lparr>warning_taskId = task_id t,
                      warning_message =
                        StartsBeforePredecessorEnds (task_name t) (task_name p)\<rparr>]
               else [])"
    using z by (simp add: warningStep_def resolvedPredecessor_def split: option.splits)
  have whole: "checkForWarnings ts =
           concat (map (\<lambda>t. case resolvedPredecessor ts t of
                               None \<Rightarrow> []
                             | Some p \<Rightarrow>
                                 if task_start t < task_end p
                                 then [\<lparr>warning_taskId = task_id t,
                                        warning_message =
                                          StartsBeforePredecessorEnds (task_name t) (task_name p)\<rparr>]
                                 else []) ts)"
    using step by (simp add: checkForWarnings_def warningLoop_concat)
  have each: "distinct (map task_id ts) \<longrightarrow>
            (\<forall>t \<in> set ts.
               warningsOf ts t =
                 (case resolvedPredecessor ts t of
                    None \<Rightarrow> []
                  | Some p \<Rightarrow>
                      if task_start t < task_end p
                      then [\<lparr>warning_taskId = task_id t,
                             warning_message =
                               StartsBeforePredecessorEnds (task_name t) (task_name p)\<rparr>]
                      else []))"
    using warningsOf_task [of ts] step by simp
  show ?thesis using whole each by (rule conjI)
qed

text \<open>
  The specification's own scenario, with a third task whose predecessor is not in the list:
  T1 on days 1 to 4, T2 with predecessor T1 on days 2 to 7, T3 with predecessor 9; T2 gets
  its one warning and T3 none, and T2 gets none once T1 ends on day 1.
\<close>

theorem C1_warning_detection_witness:
  "checkForWarnings [mkTask 1 1 4 None None, mkTask 2 2 7 (Some 1) None,
                     mkTask 3 0 1 (Some 9) None] =
     [\<lparr>warning_taskId = 2, warning_message = StartsBeforePredecessorEnds ''T'' ''T''\<rparr>] \<and>
   warningsOf [mkTask 1 1 4 None None, mkTask 2 2 7 (Some 1) None, mkTask 3 0 1 (Some 9) None]
     (mkTask 2 2 7 (Some 1) None) =
     [\<lparr>warning_taskId = 2, warning_message = StartsBeforePredecessorEnds ''T'' ''T''\<rparr>] \<and>
   warningsOf [mkTask 1 1 4 None None, mkTask 2 2 7 (Some 1) None, mkTask 3 0 1 (Some 9) None]
     (mkTask 3 0 1 (Some 9) None) = [] \<and>
   checkForWarnings [mkTask 1 (- 2) 1 None None, mkTask 2 2 7 (Some 1) None] = []"
  using C1_warning_detection
          [of "[mkTask 1 1 4 None None, mkTask 2 2 7 (Some 1) None, mkTask 3 0 1 (Some 9) None]"]
        C1_warning_detection [of "[mkTask 1 (- 2) 1 None None, mkTask 2 2 7 (Some 1) None]"]
  by (simp add: mkTask_def resolvedPredecessor_def findTask_def)

section \<open>Dragging a task\<close>

text \<open>
  The handler on a grouped task: the members of the group, which are the tasks whose id is in
  its \<open>taskIds\<close>, move by the day-delta of the drag, start and end alike, and every other
  task stays as it is; a drag by no days returns no update.
\<close>

lemma handleDragTask_group_rigid:
  assumes "findTask (tasks proj) taskId = Some t" and "groupId t = Some gid" and "gid \<noteq> []"
    and "findGroup (taskGroups proj) gid = Some g"
  shows "handleDragTask proj taskId newStartDate =
           (if newStartDate = task_start t then None
            else Some \<lparr>upd_tasks =
                         Some (map (\<lambda>x. if task_id x \<in> set (taskIds g)
                                         then x\<lparr>task_start := task_start x + (newStartDate - task_start t),
                                                task_end := task_end x + (newStartDate - task_start t)\<rparr>
                                         else x) (tasks proj)),
                       upd_taskGroups = None\<rparr>)"
  using assms
  by (simp add: handleDragTask_def differenceInDays_def truthyStr_def shiftTask_def addDays_def)

text \<open>
  Claim C2 (group rigidity on drag) at a group whose first member runs from a Friday (day 1)
  to a Monday (day 4), dragged by one day.  The earlier revision of the handler re-derives
  the end of every member from its count of business days, so the member comes out as days
  2 to 3: its end moves back by one day and its duration shrinks from 3 days to 1.  The
  later revision gives days 2 to 5, as the claim says.
\<close>

theorem C2_local_drag_not_rigid:
  "handleDragTask_local
     (mkProject [mkTask 1 1 4 None (Some ''g''), mkTask 2 5 6 None (Some ''g'')]
                [mkGroup ''g'' [1, 2]]) 1 2 =
     Some \<lparr>upd_tasks = Some [mkTask 1 2 3 None (Some ''g''), mkTask 2 6 7 None (Some ''g'')],
           upd_taskGroups = None\<rparr> \<and>
   handleDragTask
     (mkProject [mkTask 1 1 4 None (Some ''g''), mkTask 2 5 6 None (Some ''g'')]
                [mkGroup ''g'' [1, 2]]) 1 2 =
     Some \<lparr>upd_tasks = Some [mkTask 1 2 5 None (Some ''g''), mkTask 2 6 7 None (Some ''g'')],
           upd_taskGroups = None\<rparr>"
  by (simp add: handleDragTask_local_def handleDragTask_def mkProject_def mkTask_def mkGroup_def
      findTask_def findGroup_def differenceInDays_def truthyStr_def dragMember_local_def
      shiftTask_def differenceInBusinessDays_def truncDiv7_def addDays_def isWeekend_def
      getDay_def eval_nat_numeral)

text \<open>
  The business days of \<^verbatim>\<open>differenceInBusinessDays\<close>.  Whole weeks count five days each and
  the closing loop counts the remaining days one by one, so the function returns the number
  of days from the earlier date up to the day before the later one that are neither a
  Saturday nor a Sunday, with a minus sign when the left date is the earlier one.
\<close>

lemma residue_cases:
  obtains q where "b = 7 * q" | q where "b = 7 * q + 1" | q where "b = 7 * q + 2"
    | q where "b = 7 * q + 3" | q where "b = 7 * q + 4" | q where "b = 7 * q + 5"
    | q where "b = 7 * q + (6 :: int)"
proof -
  have "b = 7 * (b div 7) + b mod 7" by simp
  moreover have "b mod 7 \<in> {0, 1, 2, 3, 4, 5, 6}"
  proof -
    have "0 \<le> b mod 7" "b mod 7 < 7" by simp_all
    then show ?thesis by auto
  qed
  ultimately show ?thesis using that by (metis add.right_neutral insertE singletonD)
qed

lemma isWeekend_iff: "isWeekend d = saturdayOrSunday d"
  by (cases d rule: residue_cases) (simp_all add: isWeekend_def getDay_def saturdayOrSunday_def)

lemma businessDaysIn_append: "businessDaysIn (xs @ ys) = businessDaysIn xs + businessDaysIn ys"
  by (simp add: businessDaysIn_def)

lemma week_days: "[b..b + 6] = [b, b + 1, b + 2, b + 3, b + 4, b + 5, b + 6]"
  by (simp add: upto_rec1)

lemma businessDaysIn_week: "businessDaysIn [b..b + 6] = 5"
  unfolding week_days
  by (cases b rule: residue_cases) (simp_all add: businessDaysIn_def saturdayOrSunday_def)

lemma businessDaysIn_weeks: "businessDaysIn [b..b + 7 * int k - 1] = 5 * k"
proof (induction k)
  case 0
  then show ?case by (simp add: businessDaysIn_def)
next
  case (Suc k)
  have "[b..b + 7 * int (Suc k) - 1] = [b..b + 7 * int k - 1] @ [b + 7 * int k..b + 7 * int k + 6]"
    using upto_split1 [of b "b + 7 * int k" "b + 7 * int k + 6"] by (simp add: algebra_simps)
  then show ?case
    using Suc.IH businessDaysIn_week [of "b + 7 * int k"] by (simp add: businessDaysIn_append)
qed

lemma loop_up:
  "businessDaysLoop n r 1 acc = acc + int (businessDaysIn [r..r + int n - 1])"
proof (induction n arbitrary: r acc)
  case 0
  then show ?case by (simp add: businessDaysIn_def)
next
  case (Suc n)
  have "[r..r + int (Suc n) - 1] = r # [r + 1..r + 1 + int n - 1]"
    using upto_rec1 [of r "r + int n"] by (simp add: algebra_simps)
  then show ?case
    using Suc.IH [of "r + 1"] by (simp add: businessDaysIn_def isWeekend_iff addDays_def)
qed

lemma loop_down:
  "businessDaysLoop n r (- 1) acc = acc - int (businessDaysIn [r - int n + 1..r])"
proof (induction n arbitrary: r acc)
  case 0
  then show ?case by (simp add: businessDaysIn_def)
next
  case (Suc n)
  have "[r - int (Suc n) + 1..r] = [r - 1 - int n + 1..r - 1] @ [r]"
    using upto_rec2 [of "r - int n" r] by (simp add: algebra_simps)
  then show ?case
    using Suc.IH [of "r - 1"] by (simp add: businessDaysIn_def isWeekend_iff addDays_def)
qed

lemma differenceInBusinessDays_count:
  "differenceInBusinessDays e s = businessDaysBetween s e"
proof (cases "s \<le> e")
  case True
  define k where "k = nat ((e - s) div 7)"
  define n where "n = nat ((e - s) mod 7)"
  have k: "(e - s) div 7 = int k" using True by (simp add: k_def pos_imp_zdiv_nonneg_iff)
  have n: "(e - s) mod 7 = int n" by (simp add: n_def)
  have "e - s = 7 * ((e - s) div 7) + (e - s) mod 7" by simp
  then have es: "e = s + 7 * int k + int n" unfolding k n by linarith
  have split: "[s..e - 1] = [s..s + 7 * int k - 1] @ [s + 7 * int k..s + 7 * int k + int n - 1]"
    unfolding es using upto_split1 [of s "s + 7 * int k" "s + 7 * int k + int n - 1"]
    by (cases "n = 0") simp_all
  have w: "truncDiv7 (e - s) = int k" using True k by (simp add: truncDiv7_def)
  have f: "nat \<bar>e - (s + int k * 7)\<bar> = n" unfolding es by simp
  have sg: "\<not> e - s < 0" using True by simp
  have "differenceInBusinessDays e s = businessDaysLoop n (s + int k * 7) 1 (int k * 5)"
    by (simp only: differenceInBusinessDays_def Let_def w f sg addDays_def if_False)
  also have "\<dots> = businessDaysLoop n (s + 7 * int k) 1 (5 * int k)"
    by (simp add: mult.commute)
  also have "\<dots> = 5 * int k + int (businessDaysIn [s + 7 * int k..s + 7 * int k + int n - 1])"
    by (rule loop_up)
  also have "\<dots> = int (businessDaysIn [s..e - 1])"
    unfolding split by (simp add: businessDaysIn_append businessDaysIn_weeks)
  finally show ?thesis using True by (simp add: businessDaysBetween_def)
next
  case False
  define k where "k = nat ((s - e) div 7)"
  define n where "n = nat ((s - e) mod 7)"
  have k: "(s - e) div 7 = int k" using False by (simp add: k_def pos_imp_zdiv_nonneg_iff)
  have n: "(s - e) mod 7 = int n" by (simp add: n_def)
  have "s - e = 7 * ((s - e) div 7) + (s - e) mod 7" by simp
  then have se: "s = e + int n + 7 * int k" unfolding k n by linarith
  have split: "[e + 1..s] = [e + 1..e + int n] @ [e + int n + 1..e + int n + 1 + 7 * int k - 1]"
    unfolding se using upto_split2 [of "e + 1" "e + int n" "e + int n + 7 * int k"]
    by (cases "n = 0") (simp_all add: add.assoc)
  have w: "truncDiv7 (e - s) = - int k" using False k by (simp add: truncDiv7_def)
  have f: "nat \<bar>e - (s + - int k * 7)\<bar> = n" unfolding se by simp
  have sg: "e - s < 0" using False by simp
  have "differenceInBusinessDays e s = businessDaysLoop n (s + - int k * 7) (- 1) (- int k * 5)"
    by (simp only: differenceInBusinessDays_def Let_def w f sg addDays_def if_True)
  also have "\<dots> = businessDaysLoop n (e + int n) (- 1) (- (5 * int k))"
    unfolding se by (simp add: mult.commute)
  also have "\<dots> = - (5 * int k) - int (businessDaysIn [e + int n - int n + 1..e + int n])"
    by (rule loop_down)
  also have "\<dots> = - int (businessDaysIn [e + 1..s])"
    unfolding split
    using businessDaysIn_weeks [of "e + int n + 1" k] by (simp add: businessDaysIn_append)
  finally show ?thesis using False by (simp add: businessDaysBetween_def)
qed

text \<open>
  Claim C6 (ungrouped drag).  In a project with unique task ids, dragging a task \<open>t\<close> without
  a group to another start date changes \<open>t\<close> only: its start is the new start date and its
  end is the new start date plus, as calendar days, the number of business days between its
  old start and its old end, which are the days from the old start up to the day before the
  old end that are neither a Saturday nor a Sunday.  Both revisions of the handler agree on
  this.
\<close>

theorem C6_ungrouped_drag:
  assumes "distinct (map task_id (tasks proj))"
    and "findTask (tasks proj) taskId = Some t" and "groupId t = None"
    and "newStartDate \<noteq> task_start t"
  shows "handleDragTask proj taskId newStartDate =
           Some \<lparr>upd_tasks =
                   Some (map (\<lambda>x. if x = t
                                   then t\<lparr>task_start := newStartDate,
                                          task_end := newStartDate +
                                            businessDaysBetween (task_start t) (task_end t)\<rparr>
                                   else x) (tasks proj)),
                 upd_taskGroups = None\<rparr> \<and>
         handleDragTask_local proj taskId newStartDate = handleDragTask proj taskId newStartDate"
proof -
  let ?moved = "t\<lparr>task_start := newStartDate,
                   task_end := newStartDate + businessDaysBetween (task_start t) (task_end t)\<rparr>"
  have eq: "\<And>x. x \<in> set (tasks proj) \<Longrightarrow> (task_id x = taskId) = (x = t)"
    using assms(1,2) by (rule findTask_unique)
  have m1: "dragUngrouped (tasks proj) taskId newStartDate =
              map (\<lambda>x. if x = t then ?moved else x) (tasks proj)"
    unfolding dragUngrouped_def
    by (rule map_cong) (auto simp: eq differenceInBusinessDays_count addDays_def)
  have m2: "map (\<lambda>task. if task_id task = taskId
                         then task\<lparr>task_start := newStartDate,
                                   task_end := addDays newStartDate
                                     (differenceInBusinessDays (task_end t) (task_start t))\<rparr>
                         else task) (tasks proj) =
            map (\<lambda>x. if x = t then ?moved else x) (tasks proj)"
    by (rule map_cong) (auto simp: eq differenceInBusinessDays_count addDays_def)
  show ?thesis
    using assms(2-4) m1 m2
    by (simp add: handleDragTask_def handleDragTask_local_def differenceInDays_def truthyStr_def
        Let_def)
qed

text \<open>
  Two drags in one project.  A task from Friday (day 1) to Monday (day 4) spans three
  calendar days and one business day; dragged to the next Friday (day 8) it ends on day 9.
  A task from Monday (day 4) to the Wednesday of the next week (day 13) spans nine calendar
  days, of which days 9 and 10 are a Saturday and a Sunday, so seven business days; dragged
  to day 20 it ends on day 27.
\<close>

theorem C6_ungrouped_drag_witness:
  "distinct (map task_id
      (tasks (mkProject [mkTask 1 1 4 None None, mkTask 2 4 13 None None] []))) \<and>
   findTask (tasks (mkProject [mkTask 1 1 4 None None, mkTask 2 4 13 None None] [])) 1 =
     Some (mkTask 1 1 4 None None) \<and>
   findTask (tasks (mkProject [mkTask 1 1 4 None None, mkTask 2 4 13 None None] [])) 2 =
     Some (mkTask 2 4 13 None None) \<and>
   groupId (mkTask 1 1 4 None None) = None \<and>
   groupId (mkTask 2 4 13 None None) = None \<and>
   (8 :: int) \<noteq> task_start (mkTask 1 1 4 None None) \<and>
   (20 :: int) \<noteq> task_start (mkTask 2 4 13 None None) \<and>
   handleDragTask (mkProject [mkTask 1 1 4 None None, mkTask 2 4 13 None None] []) 1 8 =
     Some \<lparr>upd_tasks = Some [mkTask 1 8 9 None None, mkTask 2 4 13 None None],
           upd_taskGroups = None\<rparr> \<and>
   handleDragTask_local (mkProject [mkTask 1 1 4 None None, mkTask 2 4 13 None None] []) 1 8 =
     Some \<lparr>upd_tasks = Some [mkTask 1 8 9 None None, mkTask 2 4 13 None None],
           upd_taskGroups = None\<rparr> \<and>
   handleDragTask (mkProject [mkTask 1 1 4 None None, mkTask 2 4 13 None None] []) 2 20 =
     Some \<lparr>upd_tasks = Some [mkTask 1 1 4 None None, mkTask 2 20 27 None None],
           upd_taskGroups = None\<rparr> \<and>
   handleDragTask_local (mkProject [mkTask 1 1 4 None None, mkTask 2 4 13 None None] []) 2 20 =
     Some \<lparr>upd_tasks = Some [mkTask 1 1 4 None None, mkTask 2 20 27 None None],
           upd_taskGroups = None\<rparr>"
  using C6_ungrouped_drag
          [of "mkProject [mkTask 1 1 4 None None, mkTask 2 4 13 None None] []" 1
              "mkTask 1 1 4 None None" 8]
        C6_ungrouped_drag
          [of "mkProject [mkTask 1 1 4 None None, mkTask 2 4 13 None None] []" 2
              "mkTask 2 4 13 None None" 20]
  by (simp add: mkProject_def mkTask_def findTask_def businessDaysBetween_def businessDaysIn_def
      saturdayOrSunday_def upto.simps [of 1])

section \<open>Deleting a task and ungrouping a task\<close>

lemma group_id_unique:
  "distinct (map group_id gs) \<Longrightarrow> g \<in> set gs \<Longrightarrow> g' \<in> set gs \<Longrightarrow>
   (group_id g' = group_id g) = (g' = g)"
  by (auto simp: distinct_map inj_on_def)

lemma removeMember_absent: "i \<notin> set (taskIds g) \<Longrightarrow> removeMember i g = g"
  by (simp add: removeMember_def filter_neq_absent)

lemma length_removeMember:
  "distinct (taskIds g) \<Longrightarrow> i \<in> set (taskIds g) \<Longrightarrow>
   length (taskIds (removeMember i g)) = length (taskIds g) - 1"
  by (simp add: removeMember_def length_filter_neq)

lemma filter_map_one:
  "\<forall>x \<in> set xs. x \<noteq> a \<longrightarrow> P x \<and> h x = x \<Longrightarrow> \<not> P (h a) \<Longrightarrow>
   filter P (map h xs) = filter (\<lambda>x. x \<noteq> a) xs"
  by (induction xs) auto

lemma filter_map_all: "\<forall>x \<in> set xs. P (h x) \<Longrightarrow> filter P (map h xs) = map h xs"
  by (induction xs) auto

text \<open>
  The groups after a removal, in a project whose groups have unique ids and two members or
  more each, where the removed task is a member of the group \<open>g\<close> only.
\<close>

lemma map_removeMember:
  assumes o: "\<forall>g' \<in> set gs. g' \<noteq> g \<longrightarrow> i \<notin> set (taskIds g')"
  shows "map (removeMember i) gs =
           map (\<lambda>g'. if g' = g then g\<lparr>taskIds := filter (\<lambda>j. j \<noteq> i) (taskIds g)\<rparr> else g') gs"
proof (rule map_cong)
  fix g' assume "g' \<in> set gs"
  then show "removeMember i g' =
               (if g' = g then g\<lparr>taskIds := filter (\<lambda>j. j \<noteq> i) (taskIds g)\<rparr> else g')"
    using o by (auto simp: removeMember_absent) (simp add: removeMember_def)
qed simp

lemma deleteNewGroups_eq:
  assumes g: "g \<in> set (taskGroups proj)"
    and w: "\<forall>g' \<in> set (taskGroups proj). 2 \<le> length (taskIds g')"
    and o: "\<forall>g' \<in> set (taskGroups proj). g' \<noteq> g \<longrightarrow> i \<notin> set (taskIds g')"
    and d: "distinct (taskIds g)" and m: "i \<in> set (taskIds g)"
  shows "deleteNewGroups proj i =
           (if length (taskIds g) = 2 then filter (\<lambda>g'. g' \<noteq> g) (taskGroups proj)
            else map (\<lambda>g'. if g' = g then g\<lparr>taskIds := filter (\<lambda>j. j \<noteq> i) (taskIds g)\<rparr> else g')
                   (taskGroups proj))"
proof (cases "length (taskIds g) = 2")
  case True
  have a: "\<forall>x \<in> set (taskGroups proj). x \<noteq> g \<longrightarrow>
             1 < length (taskIds x) \<and> removeMember i x = x"
    using w o by (auto simp: removeMember_absent)
  have b: "\<not> 1 < length (taskIds (removeMember i g))"
    using length_removeMember [OF d m] True by simp
  show ?thesis
    using True filter_map_one [of "taskGroups proj" g "\<lambda>g. 1 < length (taskIds g)"
                                 "removeMember i", OF a b]
    by (simp add: deleteNewGroups_def)
next
  case False
  then have n: "3 \<le> length (taskIds g)" using w g by force
  have "\<forall>x \<in> set (taskGroups proj). 1 < length (taskIds (removeMember i x))"
  proof
    fix x assume x: "x \<in> set (taskGroups proj)"
    show "1 < length (taskIds (removeMember i x))"
    proof (cases "x = g")
      case True
      then show ?thesis using length_removeMember [OF d m] n by simp
    next
      case False
      then have "removeMember i x = x" using o x by (simp add: removeMember_absent)
      then show ?thesis using w x by force
    qed
  qed
  then have "deleteNewGroups proj i = map (removeMember i) (taskGroups proj)"
    unfolding deleteNewGroups_def by (rule filter_map_all)
  then show ?thesis using False map_removeMember [OF o] by simp
qed

text \<open>The ids of the groups that a deletion dissolves.\<close>

lemma dissolved_two:
  assumes g: "g \<in> set gs" and u: "distinct (map group_id gs)"
  shows "set (map group_id
           (filter (\<lambda>g0. \<not> list_ex (\<lambda>ng. group_id ng = group_id g0) (filter (\<lambda>g'. g' \<noteq> g) gs))
                   gs)) = {group_id g}"
proof -
  have "\<And>g0. g0 \<in> set gs \<Longrightarrow>
          (\<not> list_ex (\<lambda>ng. group_id ng = group_id g0) (filter (\<lambda>g'. g' \<noteq> g) gs)) = (g0 = g)"
  proof -
    fix g0 assume g0: "g0 \<in> set gs"
    show "(\<not> list_ex (\<lambda>ng. group_id ng = group_id g0) (filter (\<lambda>g'. g' \<noteq> g) gs)) = (g0 = g)"
    proof (cases "g0 = g")
      case True
      have "\<And>ng. ng \<in> set gs \<Longrightarrow> group_id ng = group_id g \<Longrightarrow> ng = g"
        using group_id_unique [OF u g] by simp
      then show ?thesis using True by (auto simp: list_ex_iff)
    next
      case False
      then show ?thesis using g0 by (auto simp: list_ex_iff)
    qed
  qed
  then have "filter (\<lambda>g0. \<not> list_ex (\<lambda>ng. group_id ng = group_id g0) (filter (\<lambda>g'. g' \<noteq> g) gs)) gs
               = filter (\<lambda>g0. g0 = g) gs"
    by (simp cong: filter_cong)
  then show ?thesis using g by auto
qed

lemma dissolved_none:
  "set (map group_id
     (filter (\<lambda>g0. \<not> list_ex (\<lambda>ng. group_id ng = group_id g0)
                      (map (\<lambda>g'. if g' = g then g\<lparr>taskIds := ms\<rparr> else g') gs))
             gs)) = {}"
proof -
  have "\<And>g0. g0 \<in> set gs \<Longrightarrow>
          list_ex (\<lambda>ng. group_id ng = group_id g0)
            (map (\<lambda>g'. if g' = g then g\<lparr>taskIds := ms\<rparr> else g') gs)"
    unfolding list_ex_iff
  proof -
    fix g0 assume g0: "g0 \<in> set gs"
    have "(if g0 = g then g\<lparr>taskIds := ms\<rparr> else g0)
            \<in> set (map (\<lambda>g'. if g' = g then g\<lparr>taskIds := ms\<rparr> else g') gs)"
      using g0 by (rule in_set_mapI)
    moreover have "group_id (if g0 = g then g\<lparr>taskIds := ms\<rparr> else g0) = group_id g0"
      by simp
    ultimately show "\<exists>ng \<in> set (map (\<lambda>g'. if g' = g then g\<lparr>taskIds := ms\<rparr> else g') gs).
                        group_id ng = group_id g0"
      by blast
  qed
  then show ?thesis by (simp add: filter_empty_conv)
qed

lemma deleteFinalTasks_eq:
  assumes g: "g \<in> set (taskGroups proj)" and u: "distinct (map group_id (taskGroups proj))"
    and w: "\<forall>g' \<in> set (taskGroups proj). 2 \<le> length (taskIds g')"
    and o: "\<forall>g' \<in> set (taskGroups proj). g' \<noteq> g \<longrightarrow> i \<notin> set (taskIds g')"
    and d: "distinct (taskIds g)" and m: "i \<in> set (taskIds g)" and ne: "group_id g \<noteq> []"
  shows "deleteFinalTasks proj i =
           map (\<lambda>x. x\<lparr>predecessorId := (if predecessorId x = Some i then None
                                         else predecessorId x),
                      groupId := (if length (taskIds g) = 2 \<and> groupId x = Some (group_id g)
                                  then None else groupId x)\<rparr>)
               (filter (\<lambda>x. task_id x \<noteq> i) (tasks proj))"
proof (cases "length (taskIds g) = 2")
  case True
  have ng: "deleteNewGroups proj i = filter (\<lambda>g'. g' \<noteq> g) (taskGroups proj)"
    using deleteNewGroups_eq [OF g w o d m] True by simp
  have ge: "\<And>x. (groupIdOrEmpty x = group_id g) = (groupId x = Some (group_id g))"
    using ne by (auto simp: groupIdOrEmpty_def split: option.splits)
  show ?thesis
    unfolding deleteFinalTasks_def Let_def ng dissolved_two [OF g u]
    using True by (simp add: ge)
next
  case False
  have ng: "deleteNewGroups proj i =
              map (\<lambda>g'. if g' = g then g\<lparr>taskIds := filter (\<lambda>j. j \<noteq> i) (taskIds g)\<rparr> else g')
                  (taskGroups proj)"
    using deleteNewGroups_eq [OF g w o d m] False by simp
  show ?thesis
    unfolding deleteFinalTasks_def Let_def ng dissolved_none
    using False by simp
qed

text \<open>Ungrouping: the group list with the member removed, and whether the group dissolves.\<close>

lemma ungroupUpdatedGroups_eq:
  assumes g: "g \<in> set (taskGroups proj)" and u: "distinct (map group_id (taskGroups proj))"
  shows "ungroupUpdatedGroups proj (group_id g) i =
           map (\<lambda>g'. if g' = g then g\<lparr>taskIds := filter (\<lambda>j. j \<noteq> i) (taskIds g)\<rparr> else g')
               (taskGroups proj)"
  unfolding ungroupUpdatedGroups_def
proof (rule map_cong)
  fix g' assume "g' \<in> set (taskGroups proj)"
  then show "(if group_id g' = group_id g then removeMember i g' else g') =
               (if g' = g then g\<lparr>taskIds := filter (\<lambda>j. j \<noteq> i) (taskIds g)\<rparr> else g')"
    using group_id_unique [OF u g] by (simp add: removeMember_def)
qed simp

lemma ungroup_find_updated:
  assumes g: "g \<in> set (taskGroups proj)" and u: "distinct (map group_id (taskGroups proj))"
  shows "findGroup (ungroupUpdatedGroups proj (group_id g) i) (group_id g) = Some (removeMember i g)"
proof -
  have a: "removeMember i g \<in> set (ungroupUpdatedGroups proj (group_id g) i)"
    using g by (auto simp: ungroupUpdatedGroups_def image_iff)
  have "\<forall>ng \<in> set (ungroupUpdatedGroups proj (group_id g) i).
          group_id ng = group_id (removeMember i g) \<longrightarrow> ng = removeMember i g"
    using group_id_unique [OF u g]
    by (auto simp: ungroupUpdatedGroups_def removeMember_def split: if_splits)
  from findGroup_unique [OF a this] show ?thesis by (simp add: removeMember_def)
qed

lemma shouldDissolve_eq:
  assumes g: "g \<in> set (taskGroups proj)" and u: "distinct (map group_id (taskGroups proj))"
    and w: "\<forall>g' \<in> set (taskGroups proj). 2 \<le> length (taskIds g')"
    and d: "distinct (taskIds g)" and m: "i \<in> set (taskIds g)"
  shows "shouldDissolve proj (group_id g) i = (length (taskIds g) = 2)"
proof -
  have "2 \<le> length (taskIds g)" using w g by simp
  then show ?thesis
    using ungroup_find_updated [OF g u, of i] length_removeMember [OF d m]
    by (auto simp: shouldDissolve_def)
qed

lemma ungroupFinalGroups_eq:
  assumes g: "g \<in> set (taskGroups proj)" and u: "distinct (map group_id (taskGroups proj))"
    and w: "\<forall>g' \<in> set (taskGroups proj). 2 \<le> length (taskIds g')"
    and d: "distinct (taskIds g)" and m: "i \<in> set (taskIds g)"
  shows "ungroupFinalGroups proj (group_id g) i =
           (if length (taskIds g) = 2 then filter (\<lambda>g'. g' \<noteq> g) (taskGroups proj)
            else map (\<lambda>g'. if g' = g then g\<lparr>taskIds := filter (\<lambda>j. j \<noteq> i) (taskIds g)\<rparr> else g')
                   (taskGroups proj))"
proof (cases "length (taskIds g) = 2")
  case True
  have a: "\<forall>x \<in> set (taskGroups proj). x \<noteq> g \<longrightarrow>
             group_id x \<noteq> group_id g \<and>
             (if x = g then g\<lparr>taskIds := filter (\<lambda>j. j \<noteq> i) (taskIds g)\<rparr> else x) = x"
    using group_id_unique [OF u g] by simp
  have b: "\<not> group_id (if g = g then g\<lparr>taskIds := filter (\<lambda>j. j \<noteq> i) (taskIds g)\<rparr> else g)
               \<noteq> group_id g"
    by simp
  show ?thesis
    using True shouldDissolve_eq [OF g u w d m]
      filter_map_one [of "taskGroups proj" g "\<lambda>x. group_id x \<noteq> group_id g"
                         "\<lambda>g'. if g' = g then g\<lparr>taskIds := filter (\<lambda>j. j \<noteq> i) (taskIds g)\<rparr> else g'",
                      OF a b]
    by (simp add: ungroupFinalGroups_def ungroupUpdatedGroups_eq [OF g u])
next
  case False
  then show ?thesis
    using shouldDissolve_eq [OF g u w d m]
    by (simp add: ungroupFinalGroups_def ungroupUpdatedGroups_eq [OF g u])
qed

text \<open>
  Claim C3 (dissolution threshold).  In a project whose groups have unique ids and two
  members or more each, let \<open>g\<close> be a group with distinct \<open>taskIds\<close> and \<open>i\<close> one of them,
  a member of no other group and the id of a task \<open>t\<close> of the project whose \<open>groupId\<close> is
  the id of \<open>g\<close>.  Deleting task \<open>i\<close> and ungrouping task \<open>i\<close> both return an update, and
  both leave the same groups.  When \<open>g\<close> has exactly 2 members, these are the groups of
  the project without \<open>g\<close>; when it has more, they are the groups of the project, in their
  order, with \<open>i\<close> taken out of the \<open>taskIds\<close> of \<open>g\<close>, which keeps the other members in
  their order and is one member fewer.  The tasks after the deletion are the tasks of the
  project other than task \<open>i\<close>, in their order, each with its \<open>predecessorId\<close> cleared
  when it was \<open>i\<close>, and with its \<open>groupId\<close> cleared when \<open>g\<close> had exactly 2 members
  and the \<open>groupId\<close> was the id of \<open>g\<close>; nothing else of a task changes.  The tasks after
  the ungrouping are the tasks of the project, in their order, with the \<open>groupId\<close> cleared
  on task \<open>i\<close> and, when \<open>g\<close> had exactly 2 members, on every task whose \<open>groupId\<close> was
  the id of \<open>g\<close>; every other task is as it was.
\<close>

theorem C3_dissolution_threshold:
  assumes g: "g \<in> set (taskGroups proj)"
    and u: "distinct (map group_id (taskGroups proj))"
    and w: "\<forall>g' \<in> set (taskGroups proj). 2 \<le> length (taskIds g')"
    and o: "\<forall>g' \<in> set (taskGroups proj). g' \<noteq> g \<longrightarrow> i \<notin> set (taskIds g')"
    and d: "distinct (taskIds g)" and m: "i \<in> set (taskIds g)"
    and f: "findTask (tasks proj) i = Some t"
    and tg: "groupId t = Some (group_id g)" and ne: "group_id g \<noteq> []"
  shows "confirmDeleteTask proj i =
           Some \<lparr>upd_tasks =
                   Some (map (\<lambda>x. x\<lparr>predecessorId :=
                                       (if predecessorId x = Some i then None
                                        else predecessorId x),
                                     groupId :=
                                       (if length (taskIds g) = 2 \<and>
                                           groupId x = Some (group_id g)
                                        then None else groupId x)\<rparr>)
                          (filter (\<lambda>x. task_id x \<noteq> i) (tasks proj))),
                 upd_taskGroups =
                   Some (if length (taskIds g) = 2
                         then filter (\<lambda>g'. g' \<noteq> g) (taskGroups proj)
                         else map (\<lambda>g'. if g' = g
                                         then g\<lparr>taskIds := filter (\<lambda>j. j \<noteq> i) (taskIds g)\<rparr>
                                         else g') (taskGroups proj))\<rparr> \<and>
         handleUngroupTask proj i =
           Some \<lparr>upd_tasks =
                   Some (map (\<lambda>x. if task_id x = i \<or>
                                      (length (taskIds g) = 2 \<and> groupId x = Some (group_id g))
                                   then x\<lparr>groupId := None\<rparr> else x) (tasks proj)),
                 upd_taskGroups =
                   Some (if length (taskIds g) = 2
                         then filter (\<lambda>g'. g' \<noteq> g) (taskGroups proj)
                         else map (\<lambda>g'. if g' = g
                                         then g\<lparr>taskIds := filter (\<lambda>j. j \<noteq> i) (taskIds g)\<rparr>
                                         else g') (taskGroups proj))\<rparr> \<and>
         length (filter (\<lambda>j. j \<noteq> i) (taskIds g)) = length (taskIds g) - 1 \<and>
         set (filter (\<lambda>j. j \<noteq> i) (taskIds g)) = set (taskIds g) - {i}"
proof -
  have del: "confirmDeleteTask proj i =
           Some \<lparr>upd_tasks = Some (deleteFinalTasks proj i),
                 upd_taskGroups = Some (deleteNewGroups proj i)\<rparr>"
    using f by (simp add: confirmDeleteTask_def)
  have ung: "handleUngroupTask proj i =
           Some \<lparr>upd_tasks = Some (ungroupFinalTasks proj (group_id g) i),
                 upd_taskGroups = Some (ungroupFinalGroups proj (group_id g) i)\<rparr>"
    using f tg ne by (simp add: handleUngroupTask_def truthyStr_def Let_def)
  have ut: "ungroupFinalTasks proj (group_id g) i =
              map (\<lambda>x. if task_id x = i \<or>
                         (length (taskIds g) = 2 \<and> groupId x = Some (group_id g))
                      then x\<lparr>groupId := None\<rparr> else x) (tasks proj)"
    by (simp add: ungroupFinalTasks_def shouldDissolve_eq [OF g u w d m])
  have len: "length (filter (\<lambda>j. j \<noteq> i) (taskIds g)) = length (taskIds g) - 1"
    using d m by (rule length_filter_neq)
  have st: "set (filter (\<lambda>j. j \<noteq> i) (taskIds g)) = set (taskIds g) - {i}"
    by auto
  show ?thesis
    unfolding del ung ut deleteFinalTasks_eq [OF g u w o d m ne]
      deleteNewGroups_eq [OF g w o d m] ungroupFinalGroups_eq [OF g u w d m]
    using len st by simp
qed

text \<open>
  Two projects with the tasks 1 to 5: in the first the groups are \<open>h\<close> of tasks 4 and 5 and
  \<open>g\<close> of tasks 1 and 2, in the second \<open>g\<close> has task 3 as well.  Tasks 3 and 4 name task 2
  as their predecessor, and task 2 names task 1.  Task 2 is deleted, and ungrouped.
\<close>

theorem C3_dissolution_threshold_witness:
  "confirmDeleteTask
     (mkProject [mkTask 1 0 4 None (Some ''g''), mkTask 2 5 9 (Some 1) (Some ''g''),
                 mkTask 3 10 12 (Some 2) None, mkTask 4 13 14 (Some 2) (Some ''h''),
                 mkTask 5 15 16 None (Some ''h'')]
                [mkGroup ''h'' [4, 5], mkGroup ''g'' [1, 2]]) 2 =
     Some \<lparr>upd_tasks = Some [mkTask 1 0 4 None None, mkTask 3 10 12 None None,
                             mkTask 4 13 14 None (Some ''h''), mkTask 5 15 16 None (Some ''h'')],
           upd_taskGroups = Some [mkGroup ''h'' [4, 5]]\<rparr> \<and>
   handleUngroupTask
     (mkProject [mkTask 1 0 4 None (Some ''g''), mkTask 2 5 9 (Some 1) (Some ''g''),
                 mkTask 3 10 12 (Some 2) None, mkTask 4 13 14 (Some 2) (Some ''h''),
                 mkTask 5 15 16 None (Some ''h'')]
                [mkGroup ''h'' [4, 5], mkGroup ''g'' [1, 2]]) 2 =
     Some \<lparr>upd_tasks = Some [mkTask 1 0 4 None None, mkTask 2 5 9 (Some 1) None,
                             mkTask 3 10 12 (Some 2) None, mkTask 4 13 14 (Some 2) (Some ''h''),
                             mkTask 5 15 16 None (Some ''h'')],
           upd_taskGroups = Some [mkGroup ''h'' [4, 5]]\<rparr> \<and>
   confirmDeleteTask
     (mkProject [mkTask 1 0 4 None (Some ''g''), mkTask 2 5 9 (Some 1) (Some ''g''),
                 mkTask 3 10 12 (Some 2) (Some ''g''), mkTask 4 13 14 (Some 2) (Some ''h''),
                 mkTask 5 15 16 None (Some ''h'')]
                [mkGroup ''h'' [4, 5], mkGroup ''g'' [1, 2, 3]]) 2 =
     Some \<lparr>upd_tasks = Some [mkTask 1 0 4 None (Some ''g''), mkTask 3 10 12 None (Some ''g''),
                             mkTask 4 13 14 None (Some ''h''), mkTask 5 15 16 None (Some ''h'')],
           upd_taskGroups = Some [mkGroup ''h'' [4, 5], mkGroup ''g'' [1, 3]]\<rparr> \<and>
   handleUngroupTask
     (mkProject [mkTask 1 0 4 None (Some ''g''), mkTask 2 5 9 (Some 1) (Some ''g''),
                 mkTask 3 10 12 (Some 2) (Some ''g''), mkTask 4 13 14 (Some 2) (Some ''h''),
                 mkTask 5 15 16 None (Some ''h'')]
                [mkGroup ''h'' [4, 5], mkGroup ''g'' [1, 2, 3]]) 2 =
     Some \<lparr>upd_tasks = Some [mkTask 1 0 4 None (Some ''g''), mkTask 2 5 9 (Some 1) None,
                             mkTask 3 10 12 (Some 2) (Some ''g''),
                             mkTask 4 13 14 (Some 2) (Some ''h''),
                             mkTask 5 15 16 None (Some ''h'')],
           upd_taskGroups = Some [mkGroup ''h'' [4, 5], mkGroup ''g'' [1, 3]]\<rparr>"
proof -
  let ?t2 = "mkTask 2 5 9 (Some 1) (Some ''g'')"
  let ?g2 = "mkGroup ''g'' [1, 2]"
  let ?g3 = "mkGroup ''g'' [1, 2, 3]"
  let ?p2 = "mkProject [mkTask 1 0 4 None (Some ''g''), mkTask 2 5 9 (Some 1) (Some ''g''),
                        mkTask 3 10 12 (Some 2) None, mkTask 4 13 14 (Some 2) (Some ''h''),
                        mkTask 5 15 16 None (Some ''h'')]
                       [mkGroup ''h'' [4, 5], mkGroup ''g'' [1, 2]]"
  let ?p3 = "mkProject [mkTask 1 0 4 None (Some ''g''), mkTask 2 5 9 (Some 1) (Some ''g''),
                        mkTask 3 10 12 (Some 2) (Some ''g''), mkTask 4 13 14 (Some 2) (Some ''h''),
                        mkTask 5 15 16 None (Some ''h'')]
                       [mkGroup ''h'' [4, 5], mkGroup ''g'' [1, 2, 3]]"
  have two: "confirmDeleteTask ?p2 2 =
               Some \<lparr>upd_tasks = Some [mkTask 1 0 4 None None, mkTask 3 10 12 None None,
                                       mkTask 4 13 14 None (Some ''h''),
                                       mkTask 5 15 16 None (Some ''h'')],
                     upd_taskGroups = Some [mkGroup ''h'' [4, 5]]\<rparr> \<and>
             handleUngroupTask ?p2 2 =
               Some \<lparr>upd_tasks = Some [mkTask 1 0 4 None None, mkTask 2 5 9 (Some 1) None,
                                       mkTask 3 10 12 (Some 2) None,
                                       mkTask 4 13 14 (Some 2) (Some ''h''),
                                       mkTask 5 15 16 None (Some ''h'')],
                     upd_taskGroups = Some [mkGroup ''h'' [4, 5]]\<rparr>"
    using C3_dissolution_threshold [where g = ?g2 and i = 2 and t = ?t2 and proj = ?p2]
    by (simp add: findTask_def mkProject_def mkTask_def mkGroup_def)
  have three: "confirmDeleteTask ?p3 2 =
               Some \<lparr>upd_tasks = Some [mkTask 1 0 4 None (Some ''g''),
                                       mkTask 3 10 12 None (Some ''g''),
                                       mkTask 4 13 14 None (Some ''h''),
                                       mkTask 5 15 16 None (Some ''h'')],
                     upd_taskGroups = Some [mkGroup ''h'' [4, 5], mkGroup ''g'' [1, 3]]\<rparr> \<and>
             handleUngroupTask ?p3 2 =
               Some \<lparr>upd_tasks = Some [mkTask 1 0 4 None (Some ''g''), mkTask 2 5 9 (Some 1) None,
                                       mkTask 3 10 12 (Some 2) (Some ''g''),
                                       mkTask 4 13 14 (Some 2) (Some ''h''),
                                       mkTask 5 15 16 None (Some ''h'')],
                     upd_taskGroups = Some [mkGroup ''h'' [4, 5], mkGroup ''g'' [1, 3]]\<rparr>"
    using C3_dissolution_threshold [where g = ?g3 and i = 2 and t = ?t2 and proj = ?p3]
    by (simp add: findTask_def mkProject_def mkTask_def mkGroup_def)
  show ?thesis using two three by simp
qed

section \<open>Editing the interval between two members\<close>
















section \<open>Reordering the members of a group\<close>

text \<open>
  The later revision of the handler stores the new order with its first update and then
  stores \<^verbatim>\<open>{ ...currentProject, tasks }\<close> with its second, where \<open>currentProject\<close> is
  the project from before the first update: whenever the relayout does not throw, the groups
  of the project it leaves behind are the groups from before the call.
\<close>

lemma reorder_drops_order:
  assumes "lookupTasks (tasks currentProject) newOrderedTaskIds = Inr groupTasks"
  shows "taskGroups (handleReorderGroupTasks currentProject gId newOrderedTaskIds) =
           taskGroups currentProject"
  using assms
  by (simp add: handleReorderGroupTasks_def updateAndSaveProjectData_def reorderUpdater_def
      mergeUpdate_def Let_def)

text \<open>
  The earlier revision applies both updaters to the stored project in turn, and the group
  keeps the new order.
\<close>

lemma reorder_local_keeps_order:
  assumes "handleReorderGroupTasks_local stored gId newOrderedTaskIds = Inr stored'"
  shows "taskGroups stored' =
           map (\<lambda>g. if group_id g = gId then g\<lparr>taskIds := newOrderedTaskIds\<rparr> else g)
               (taskGroups stored)"
  using assms
  by (auto simp: handleReorderGroupTasks_local_def updateCurrentProject_def reorderUpdater_local_def
      updateGroupUpdater_def applyGroupUpdates_def mergeUpdate_def Let_def
      split: sum.splits if_splits)

text \<open>
  The relayout itself, in the later revision: when the new order has distinct ids that all
  name tasks, the first of them keeps its dates and the others form the chain after its
  end, each starting one day after the end before it, with its own duration.
\<close>

lemma relayoutLoop_chain:
  "relayoutLoop ts lastEnd acc =
     rev (map (\<lambda>t. (task_id t, task_start t, task_end t)) (chainAfter lastEnd ts)) @ acc"
  by (induction ts arbitrary: lastEnd acc) (simp_all add: addDays_def differenceInDays_def Let_def)

lemma chainAfter_ids: "map task_id (chainAfter lastEnd ts) = map task_id ts"
  by (induction ts arbitrary: lastEnd) simp_all

lemma chainAfter_length: "length (chainAfter lastEnd ts) = length ts"
  by (induction ts arbitrary: lastEnd) simp_all

lemma chainAfter_frame:
  "i < length ts \<Longrightarrow>
   chainAfter lastEnd ts ! i =
     (ts ! i)\<lparr>task_start := task_start (chainAfter lastEnd ts ! i),
              task_end := task_end (chainAfter lastEnd ts ! i)\<rparr>"
proof (induction ts arbitrary: lastEnd i)
  case Nil
  then show ?case by simp
next
  case (Cons t ts)
  show ?case
  proof (cases i)
    case 0
    then show ?thesis by simp
  next
    case (Suc j)
    then have "j < length ts" using Cons.prems by simp
    from Cons.IH [OF this] show ?thesis using Suc by simp
  qed
qed

lemma chainAfter_duration:
  "i < length ts \<Longrightarrow>
   task_end (chainAfter lastEnd ts ! i) - task_start (chainAfter lastEnd ts ! i) =
     task_end (ts ! i) - task_start (ts ! i)"
proof (induction ts arbitrary: lastEnd i)
  case Nil
  then show ?case by simp
next
  case (Cons t ts)
  show ?case
  proof (cases i)
    case 0
    then show ?thesis by simp
  next
    case (Suc j)
    then have "j < length ts" using Cons.prems by simp
    from Cons.IH [OF this] show ?thesis using Suc by simp
  qed
qed

lemma chainAfter_first:
  "ts \<noteq> [] \<Longrightarrow> task_start (chainAfter lastEnd ts ! 0) = lastEnd + 1"
  by (cases ts) simp_all

lemma chainAfter_gapless:
  "Suc i < length ts \<Longrightarrow>
   task_start (chainAfter lastEnd ts ! Suc i) = task_end (chainAfter lastEnd ts ! i) + 1"
proof (induction ts arbitrary: lastEnd i)
  case Nil
  then show ?case by simp
next
  case (Cons t ts)
  show ?case
  proof (cases i)
    case 0
    then have "ts \<noteq> []" using Cons.prems by auto
    then show ?thesis using 0 by (simp add: chainAfter_first)
  next
    case (Suc j)
    then have "Suc j < length ts" using Cons.prems by simp
    from Cons.IH [OF this] show ?thesis using Suc by simp
  qed
qed

lemma applyTaskUpdates_chain:
  assumes d: "distinct (map task_id ts)" and i: "i < length ts"
  shows "applyTaskUpdates (relayoutLoop ts lastEnd []) (ts ! i) = chainAfter lastEnd ts ! i"
proof -
  let ?c = "chainAfter lastEnd ts"
  let ?kv = "map (\<lambda>t. (task_id t, task_start t, task_end t)) ?c"
  have keys: "map fst (rev ?kv) = rev (map task_id ts)"
    by (simp add: rev_map [symmetric] comp_def chainAfter_ids [unfolded comp_def])
  have dk: "distinct (map fst (rev ?kv))" using d keys by simp
  have ci: "?c ! i \<in> set ?c" using i by (simp add: chainAfter_length)
  have idi: "task_id (?c ! i) = task_id (ts ! i)"
    using i chainAfter_ids [of lastEnd ts] by (metis chainAfter_length nth_map)
  have "(task_id (ts ! i), task_start (?c ! i), task_end (?c ! i)) \<in> set (rev ?kv)"
    using ci idi by (auto simp: image_iff intro!: bexI [of _ "?c ! i"])
  then have "map_of (rev ?kv) (task_id (ts ! i)) = Some (task_start (?c ! i), task_end (?c ! i))"
    using dk by simp
  then show ?thesis
    using chainAfter_frame [OF i, of lastEnd]
    by (simp add: applyTaskUpdates_def relayoutLoop_chain)
qed

lemma applyTaskUpdates_other:
  "task_id x \<notin> task_id ` set ts \<Longrightarrow> applyTaskUpdates (relayoutLoop ts lastEnd []) x = x"
proof -
  assume a: "task_id x \<notin> task_id ` set ts"
  have "set (map task_id (chainAfter lastEnd ts)) = task_id ` set ts"
    by (simp add: chainAfter_ids)
  then have "task_id x \<notin> task_id ` set (chainAfter lastEnd ts)" using a by simp
  then have "map_of (rev (map (\<lambda>t. (task_id t, task_start t, task_end t)) (chainAfter lastEnd ts)))
               (task_id x) = None"
    by (simp add: map_of_eq_None_iff image_iff) 
  then show ?thesis by (simp add: applyTaskUpdates_def relayoutLoop_chain)
qed

lemma relayout_members:
  assumes d: "distinct (map task_id (first # rest))"
  shows "map (applyTaskUpdates (relayout (first # rest))) (first # rest) =
           first # chainAfter (task_end first) rest"
proof -
  have f: "applyTaskUpdates (relayoutLoop rest (task_end first) []) first = first"
    using d by (intro applyTaskUpdates_other) simp
  have "map (applyTaskUpdates (relayoutLoop rest (task_end first) [])) rest =
          chainAfter (task_end first) rest"
    using d by (intro nth_equalityI) (simp_all add: chainAfter_length applyTaskUpdates_chain)
  then show ?thesis using f by (simp add: relayout_def)
qed

lemma applyTaskUpdates_id: "task_id (applyTaskUpdates us t) = task_id t"
  by (simp add: applyTaskUpdates_def split: option.splits)

lemma findTask_map:
  "(\<And>t. task_id (f t) = task_id t) \<Longrightarrow> findTask (map f ts) i = map_option f (findTask ts i)"
  unfolding findTask_def by (induction ts) simp_all

lemma lookupTasks_map:
  assumes "\<And>t. task_id (f t) = task_id t" and "lookupTasks ts ids = Inr gts"
  shows "lookupTasks (map f ts) ids = Inr (map f gts)"
  using assms(2)
proof (induction ids arbitrary: gts)
  case Nil
  then show ?case by simp
next
  case (Cons i ids)
  then show ?case
    by (auto simp: findTask_map [of f, OF assms(1)] split: option.splits sum.splits)
qed

lemma lookupTasks_ids: "lookupTasks ts ids = Inr gts \<Longrightarrow> map task_id gts = ids"
proof (induction ids arbitrary: gts)
  case Nil
  then show ?case by simp
next
  case (Cons i ids)
  then show ?case
    by (auto split: option.splits sum.splits dest: findTask_Some)
qed

lemma reorder_tasks:
  assumes "lookupTasks (tasks P) newOrderedTaskIds = Inr groupTasks"
  shows "tasks (handleReorderGroupTasks P gId newOrderedTaskIds) =
           map (applyTaskUpdates (relayout groupTasks)) (tasks P)"
proof (cases "relayout groupTasks = []")
  case True
  have "map (applyTaskUpdates []) (tasks P) = tasks P"
    by (simp add: applyTaskUpdates_def map_idI)
  then show ?thesis
    using assms True
    by (simp add: handleReorderGroupTasks_def handleUpdateGroup_def updateAndSaveProjectData_def
        reorderUpdater_def updateGroupUpdater_def mergeUpdate_def Let_def)
next
  case False
  then show ?thesis
    using assms
    by (simp add: handleReorderGroupTasks_def handleUpdateGroup_def updateAndSaveProjectData_def
        reorderUpdater_def updateGroupUpdater_def mergeUpdate_def Let_def)
qed

lemma reorder_relayout:
  assumes o: "distinct newOrderedTaskIds"
    and l: "lookupTasks (tasks P) newOrderedTaskIds = Inr (first # rest)"
  shows "lookupTasks (tasks (handleReorderGroupTasks P gId newOrderedTaskIds)) newOrderedTaskIds =
           Inr (first # chainAfter (task_end first) rest) \<and>
         length (chainAfter (task_end first) rest) = length rest \<and>
         (\<forall>i < length rest.
            task_start (chainAfter (task_end first) rest ! i) =
              (if i = 0 then task_end first else task_end (chainAfter (task_end first) rest ! (i - 1))) + 1 \<and>
            task_end (chainAfter (task_end first) rest ! i) -
              task_start (chainAfter (task_end first) rest ! i) =
              task_end (rest ! i) - task_start (rest ! i))"
proof -
  have d: "distinct (map task_id (first # rest))"
    using o lookupTasks_ids [OF l] by simp
  have "lookupTasks (tasks (handleReorderGroupTasks P gId newOrderedTaskIds)) newOrderedTaskIds =
          Inr (map (applyTaskUpdates (relayout (first # rest))) (first # rest))"
    unfolding reorder_tasks [OF l]
    by (rule lookupTasks_map [OF applyTaskUpdates_id l])
  then have a: "lookupTasks (tasks (handleReorderGroupTasks P gId newOrderedTaskIds)) newOrderedTaskIds =
           Inr (first # chainAfter (task_end first) rest)"
    by (simp only: relayout_members [OF d])
  have b: "\<forall>i < length rest.
            task_start (chainAfter (task_end first) rest ! i) =
              (if i = 0 then task_end first else task_end (chainAfter (task_end first) rest ! (i - 1))) + 1 \<and>
            task_end (chainAfter (task_end first) rest ! i) -
              task_start (chainAfter (task_end first) rest ! i) =
              task_end (rest ! i) - task_start (rest ! i)"
  proof (intro allI impI)
    fix i assume i: "i < length rest"
    have s: "task_start (chainAfter (task_end first) rest ! i) =
              (if i = 0 then task_end first else task_end (chainAfter (task_end first) rest ! (i - 1))) + 1"
    proof (cases i)
      case 0
      then show ?thesis using i chainAfter_first [of rest "task_end first"] by auto
    next
      case (Suc j)
      then show ?thesis using i chainAfter_gapless [of j rest "task_end first"] by simp
    qed
    show "task_start (chainAfter (task_end first) rest ! i) =
              (if i = 0 then task_end first else task_end (chainAfter (task_end first) rest ! (i - 1))) + 1 \<and>
            task_end (chainAfter (task_end first) rest ! i) -
              task_start (chainAfter (task_end first) rest ! i) =
              task_end (rest ! i) - task_start (rest ! i)"
      using s chainAfter_duration [OF i, of "task_end first"] by simp
  qed
  have c: "length (chainAfter (task_end first) rest) = length rest"
    by (rule chainAfter_length)
  show ?thesis using a b c by blast
qed


text \<open>
  Claim C5 (reorder contiguity) at a group of tasks 1, 2 and 3 on days 0 to 2, 5 to 6 and 9
  to 12, reordered to 2, 1, 3.  Both revisions lay the dates out as the claim says: task 2
  keeps days 5 to 6, task 1 follows on days 7 to 9 and task 3 on days 10 to 13.  The later
  revision leaves the group with the old order 1, 2, 3 in \<open>taskIds\<close>; the earlier revision
  leaves it with 2, 1, 3.
\<close>

theorem C5_reorder_loses_order:
  "handleReorderGroupTasks
     (mkProject [mkTask 1 0 2 None (Some ''g''), mkTask 2 5 6 None (Some ''g''),
                 mkTask 3 9 12 None (Some ''g'')] [mkGroup ''g'' [1, 2, 3]])
     ''g'' [2, 1, 3] =
   mkProject [mkTask 1 7 9 None (Some ''g''), mkTask 2 5 6 None (Some ''g''),
              mkTask 3 10 13 None (Some ''g'')] [mkGroup ''g'' [1, 2, 3]] \<and>
   handleReorderGroupTasks_local
     (mkProject [mkTask 1 0 2 None (Some ''g''), mkTask 2 5 6 None (Some ''g''),
                 mkTask 3 9 12 None (Some ''g'')] [mkGroup ''g'' [1, 2, 3]])
     ''g'' [2, 1, 3] =
   Inr (mkProject [mkTask 1 7 9 None (Some ''g''), mkTask 2 5 6 None (Some ''g''),
              mkTask 3 10 13 None (Some ''g'')] [mkGroup ''g'' [2, 1, 3]])"
  by (simp add: handleReorderGroupTasks_def handleReorderGroupTasks_local_def
      handleUpdateGroup_def updateAndSaveProjectData_def updateCurrentProject_def
      reorderUpdater_def reorderUpdater_local_def updateGroupUpdater_def applyGroupUpdates_def
      relayout_def relayout_local_def applyTaskUpdates_def mergeUpdate_def
      findTask_def addDays_def differenceInDays_def mkProject_def mkTask_def mkGroup_def Let_def)

section \<open>Creating a group\<close>

lemma newGroupIdAt_inj: "newGroupIdAt a = newGroupIdAt b \<Longrightarrow> a = b"
  by (metis newGroupIdAt_def parseInt_decimal same_append_eq)

lemma isDuplicate_iff:
  "isDuplicate ts sel = (\<exists>i \<in> set sel. \<exists>t. findTask ts i = Some t \<and> truthyStr (groupId t))"
  by (auto simp: isDuplicate_def list_ex_iff split: option.splits)

text \<open>
  Claim C7 (create-group rejection).  With at least two selected ids: when a selected id
  belongs to a task that has a group already, the handler ends in the rejection and the
  project it leaves behind is the project it was given, tasks and groups alike; when no
  selected task has a group, the update appends one group, with the id made from the clock,
  the selected ids and the next colour of the palette, and it sets the \<open>groupId\<close> of the
  tasks with a selected id to the new id and changes no other task.  The new id differs from
  the id made at any other reading of the clock.
\<close>

theorem C7_create_group:
  assumes "length selectedTaskIds \<ge> 2"
  shows "if \<exists>i \<in> set selectedTaskIds. \<exists>t. findTask (tasks proj) i = Some t \<and> truthyStr (groupId t)
         then handleCreateGroup now proj selectedTaskIds = DuplicateGrouping \<and>
              projectAfterCreateGroup now proj selectedTaskIds = proj
         else handleCreateGroup now proj selectedTaskIds =
                GroupCreated
                  \<lparr>upd_tasks = Some (map (\<lambda>task. if task_id task \<in> set selectedTaskIds
                                                 then task\<lparr>groupId := Some (newGroupIdAt now)\<rparr>
                                                 else task) (tasks proj)),
                   upd_taskGroups =
                     Some (taskGroups proj @
                           [\<lparr>group_id = newGroupIdAt now, group_name = None,
                             taskIds = selectedTaskIds,
                             color = colors ! (length (taskGroups proj) mod 10)\<rparr>])\<rparr> \<and>
              (\<forall>earlier. earlier \<noteq> now \<longrightarrow> newGroupIdAt earlier \<noteq> newGroupIdAt now)"
  using assms newGroupIdAt_inj
  by (auto simp: handleCreateGroup_def projectAfterCreateGroup_def isDuplicate_iff Let_def colors_def)


theorem C7_create_group_witness:
  "handleCreateGroup 5
     (mkProject [mkTask 1 0 2 None None, mkTask 2 5 6 None None, mkTask 3 9 12 None None] [])
     [1, 2] =
   GroupCreated
     \<lparr>upd_tasks = Some [mkTask 1 0 2 None (Some ''group-5''), mkTask 2 5 6 None (Some ''group-5''),
                         mkTask 3 9 12 None None],
      upd_taskGroups = Some [\<lparr>group_id = ''group-5'', group_name = None, taskIds = [1, 2],
                               color = ''#f87171''\<rparr>]\<rparr> \<and>
   handleCreateGroup 5
     (mkProject [mkTask 1 0 2 None (Some ''g''), mkTask 2 5 6 None None, mkTask 3 9 12 None None] [])
     [1, 2] = DuplicateGrouping \<and>
   projectAfterCreateGroup 5
     (mkProject [mkTask 1 0 2 None (Some ''g''), mkTask 2 5 6 None None, mkTask 3 9 12 None None] [])
     [1, 2] =
   mkProject [mkTask 1 0 2 None (Some ''g''), mkTask 2 5 6 None None, mkTask 3 9 12 None None] []"
  using C7_create_group
          [where selectedTaskIds = "[1, 2]" and now = 5
             and proj = "mkProject [mkTask 1 0 2 None None, mkTask 2 5 6 None None,
                                    mkTask 3 9 12 None None] []"]
        C7_create_group
          [where selectedTaskIds = "[1, 2]" and now = 5
             and proj = "mkProject [mkTask 1 0 2 None (Some ''g''), mkTask 2 5 6 None None,
                                    mkTask 3 9 12 None None] []"]
  by (simp add: findTask_def truthyStr_def mkProject_def mkTask_def newGroupIdAt_def
      decimal.simps colors_def)

section \<open>Saving a task\<close>

text \<open>
  When the argument has no \<open>id\<close> key at all, the later revision appends a task with the
  allocated id, one more than the largest id, or 1 in an empty list; the earlier revision
  does so whenever \<^verbatim>\<open>taskData.id\<close> is falsy.
\<close>

lemma handleSaveTask_without_id_key:
  assumes "td_id taskData = None"
  shows "handleSaveTask proj taskData =
           TaskAppended (tasks proj)
             \<lparr>new_id = Some (if tasks proj = [] then 1 else Max (set (map task_id (tasks proj))) + 1),
              new_name = td_name taskData, new_start = td_start taskData,
              new_end = td_end taskData, new_progress = 0\<rparr>"
  using assms
  by (simp add: handleSaveTask_def taskDataId_def truthyNum_def newTaskObject_def allocateId_def)

lemma handleSaveTask_local_create:
  assumes "\<not> truthyNum (taskDataId taskData)"
  shows "handleSaveTask_local proj taskData =
           TaskAppended (tasks proj)
             \<lparr>new_id = Some (if tasks proj = [] then 1 else Max (set (map task_id (tasks proj))) + 1),
              new_name = td_name taskData, new_start = td_start taskData,
              new_end = td_end taskData, new_progress = 0\<rparr>"
  using assms
  by (simp add: handleSaveTask_local_def allocateId_def)

text \<open>
  Claim C8 (task id allocation) at the ids 1, 3 and 7 and at the argument the task form
  passes for a new task, whose \<open>id\<close> key is present with the value \<^verbatim>\<open>undefined\<close>: the later
  revision appends a task whose id is \<^verbatim>\<open>undefined\<close>, since the spread of the argument
  replaces the allocated 8; the earlier revision appends a task with id 8.  Name, start, end
  and progress 0 are as the claim says in both.
\<close>

theorem C8_created_task_without_id:
  "handleSaveTask
     (mkProject [mkTask 1 0 1 None None, mkTask 3 0 1 None None, mkTask 7 0 1 None None] [])
     \<lparr>td_id = Some None, td_name = ''New'', td_start = 2, td_end = 3\<rparr> =
   TaskAppended [mkTask 1 0 1 None None, mkTask 3 0 1 None None, mkTask 7 0 1 None None]
     \<lparr>new_id = None, new_name = ''New'', new_start = 2, new_end = 3, new_progress = 0\<rparr> \<and>
   handleSaveTask_local
     (mkProject [mkTask 1 0 1 None None, mkTask 3 0 1 None None, mkTask 7 0 1 None None] [])
     \<lparr>td_id = Some None, td_name = ''New'', td_start = 2, td_end = 3\<rparr> =
   TaskAppended [mkTask 1 0 1 None None, mkTask 3 0 1 None None, mkTask 7 0 1 None None]
     \<lparr>new_id = Some 8, new_name = ''New'', new_start = 2, new_end = 3, new_progress = 0\<rparr>"
  by (simp add: handleSaveTask_def handleSaveTask_local_def taskDataId_def truthyNum_def
      newTaskObject_def allocateId_def mkProject_def mkTask_def)

section \<open>Importing notes\<close>






section \<open>What the date operations leave alone\<close>

lemma sameButDates_refl: "sameButDates t t"
  by (simp add: sameButDates_def)

lemma sameButDates_dates: "sameButDates t (t\<lparr>task_start := s, task_end := e\<rparr>)"
  by (simp add: sameButDates_def)

lemma frame_map:
  "(\<And>t. sameButDates t (f t)) \<Longrightarrow> list_all2 sameButDates ts (map f ts)"
  by (simp add: list_all2_conv_all_nth)

lemma frame_shiftTask: "sameButDates t (shiftTask d t)"
  by (simp add: shiftTask_def sameButDates_def)

lemma frame_applyTaskUpdates: "sameButDates t (applyTaskUpdates us t)"
  by (simp add: applyTaskUpdates_def sameButDates_def split: option.splits)

lemma frame_drag:
  "handleDragTask proj taskId newStartDate = Some u \<Longrightarrow>
   upd_taskGroups u = None \<and> (\<exists>ts'. upd_tasks u = Some ts' \<and> list_all2 sameButDates (tasks proj) ts')"
  by (auto simp: handleDragTask_def dragUngrouped_def Let_def sameButDates_refl sameButDates_dates
      frame_shiftTask split: option.splits if_splits intro!: frame_map)

lemma frame_resize:
  "handleResizeTask proj taskId newStart newEnd = Some u \<Longrightarrow>
   upd_taskGroups u = None \<and> (\<exists>ts'. upd_tasks u = Some ts' \<and> list_all2 sameButDates (tasks proj) ts')"
  by (auto simp: handleResizeTask_def sameButDates_refl sameButDates_dates intro!: frame_map)

lemma frame_interval:
  "handleUpdateTaskInterval proj gId previousTaskId taskToShiftId newInterval = Some u \<Longrightarrow>
   upd_taskGroups u = None \<and> (\<exists>ts'. upd_tasks u = Some ts' \<and> list_all2 sameButDates (tasks proj) ts')"
  by (auto simp: handleUpdateTaskInterval_def Let_def sameButDates_refl frame_shiftTask
      split: option.splits if_splits intro!: frame_map)

lemma frame_reorder:
  "list_all2 sameButDates (tasks currentProject)
     (tasks (handleReorderGroupTasks currentProject gId newOrderedTaskIds))"
  by (auto simp: handleReorderGroupTasks_def handleUpdateGroup_def updateAndSaveProjectData_def
      reorderUpdater_def updateGroupUpdater_def mergeUpdate_def Let_def sameButDates_refl
      frame_applyTaskUpdates list_all2_refl
      split: sum.splits option.splits if_splits intro!: frame_map)


text \<open>
  Claim C10 (frame of the date operations).  Whenever the drag, the resize or the interval
  edit returns an update, the update has a task list and no group list, and the new task
  list has the length of the old one and, position by position, a task with the same id,
  name, progress, predecessor, group and unit as before.  The same holds between the tasks
  of the project before a reorder and the tasks of the project the reorder leaves behind.
\<close>

theorem C10_frame:
  "(\<forall>u. handleDragTask proj taskId newStartDate = Some u \<longrightarrow>
        upd_taskGroups u = None \<and>
        (\<exists>ts'. upd_tasks u = Some ts' \<and> list_all2 sameButDates (tasks proj) ts')) \<and>
   (\<forall>u. handleResizeTask proj taskId newStart newEnd = Some u \<longrightarrow>
        upd_taskGroups u = None \<and>
        (\<exists>ts'. upd_tasks u = Some ts' \<and> list_all2 sameButDates (tasks proj) ts')) \<and>
   (\<forall>u. handleUpdateTaskInterval proj gId previousTaskId taskToShiftId newInterval = Some u \<longrightarrow>
        upd_taskGroups u = None \<and>
        (\<exists>ts'. upd_tasks u = Some ts' \<and> list_all2 sameButDates (tasks proj) ts')) \<and>
   list_all2 sameButDates (tasks proj) (tasks (handleReorderGroupTasks proj gId newOrderedTaskIds))"
  using frame_drag frame_resize frame_interval frame_reorder by blast

theorem C10_frame_witness:
  "handleDragTask
     (mkProject [mkTask 1 0 2 None (Some ''g''), mkTask 2 5 6 (Some 1) (Some ''g''),
                 mkTask 3 9 12 None None] [mkGroup ''g'' [1, 2]]) 1 3 =
     Some \<lparr>upd_tasks = Some [mkTask 1 3 5 None (Some ''g''), mkTask 2 8 9 (Some 1) (Some ''g''),
                             mkTask 3 9 12 None None],
           upd_taskGroups = None\<rparr> \<and>
   list_all2 sameButDates
     [mkTask 1 0 2 None (Some ''g''), mkTask 2 5 6 (Some 1) (Some ''g''), mkTask 3 9 12 None None]
     [mkTask 1 3 5 None (Some ''g''), mkTask 2 8 9 (Some 1) (Some ''g''), mkTask 3 9 12 None None] \<and>
   handleResizeTask
     (mkProject [mkTask 1 0 2 None (Some ''g''), mkTask 2 5 6 (Some 1) (Some ''g''),
                 mkTask 3 9 12 None None] [mkGroup ''g'' [1, 2]]) 3 8 12 =
     Some \<lparr>upd_tasks = Some [mkTask 1 0 2 None (Some ''g''), mkTask 2 5 6 (Some 1) (Some ''g''),
                             mkTask 3 8 12 None None],
           upd_taskGroups = None\<rparr> \<and>
   handleUpdateTaskInterval
     (mkProject [mkTask 1 0 2 None (Some ''g''), mkTask 2 5 6 (Some 1) (Some ''g''),
                 mkTask 3 9 12 None None] [mkGroup ''g'' [1, 2]]) ''g'' 1 2 1 =
     Some \<lparr>upd_tasks = Some [mkTask 1 0 2 None (Some ''g''), mkTask 2 3 4 (Some 1) (Some ''g''),
                             mkTask 3 9 12 None None],
           upd_taskGroups = None\<rparr>"
  using C10_frame
          [where proj = "mkProject [mkTask 1 0 2 None (Some ''g''), mkTask 2 5 6 (Some 1) (Some ''g''),
                                   mkTask 3 9 12 None None] [mkGroup ''g'' [1, 2]]"
             and taskId = 1 and newStartDate = 3 and newStart = 8 and newEnd = 12
             and gId = "''g''" and previousTaskId = 1 and taskToShiftId = 2 and newInterval = 1
             and newOrderedTaskIds = "[2, 1]"]
  by (simp add: handleDragTask_def handleResizeTask_def handleUpdateTaskInterval_def
      groupTasksByStart_def existingMembers_def sliceFrom_def shiftTask_def sameButDates_def
      truthyStr_def findTask_def findGroup_def addDays_def differenceInDays_def
      mkProject_def mkTask_def mkGroup_def Let_def)

end
